theory Spec2Isabelle
  imports Main
begin

section \<open>Paths\<close>

text \<open>
  The scripts manipulate paths through Node's \<open>path\<close> module. Paths are strings; the
  functions below follow the POSIX implementations of the module, which scan the path from
  its last character to its first. The loops take the part of the path that is still to be
  scanned in reverse order: the head \<open>c\<close> of \<open>c # rs\<close> is \<open>path.charCodeAt(i)\<close> with
  \<open>i = length rs\<close>. The value \<open>-1\<close> of an index variable is \<open>None\<close>.
\<close>

type_synonym path = string

text \<open>The loop of \<open>path.basename(path)\<close> (no suffix argument): returns \<open>(start, end)\<close>.\<close>

fun basename_loop :: "string \<Rightarrow> nat \<Rightarrow> nat option \<Rightarrow> bool \<Rightarrow> nat \<times> nat option" where
  "basename_loop [] start e matchedSlash = (start, e)"
| "basename_loop (c # rs) start e matchedSlash =
     (if c = CHR ''/'' then
        (if \<not> matchedSlash then (length rs + 1, e)
         else basename_loop rs start e matchedSlash)
      else if e = None then basename_loop rs start (Some (length rs + 1)) False
      else basename_loop rs start e matchedSlash)"

definition slice :: "string \<Rightarrow> nat \<Rightarrow> nat \<Rightarrow> string" where
  "slice s a b = take (b - a) (drop a s)"

definition basename :: "path \<Rightarrow> string" where
  "basename p =
     (case basename_loop (rev p) 0 None True of
        (start, None) \<Rightarrow> []
      | (start, Some e) \<Rightarrow> slice p start e)"

text \<open>
  The loop of \<open>path.extname(path)\<close>: returns \<open>(startDot, startPart, end, preDotState)\<close>.
\<close>

fun extname_loop ::
  "string \<Rightarrow> nat option \<Rightarrow> nat \<Rightarrow> nat option \<Rightarrow> bool \<Rightarrow> int
     \<Rightarrow> nat option \<times> nat \<times> nat option \<times> int" where
  "extname_loop [] startDot startPart e matchedSlash preDotState =
     (startDot, startPart, e, preDotState)"
| "extname_loop (c # rs) startDot startPart e matchedSlash preDotState =
     (if c = CHR ''/'' then
        (if \<not> matchedSlash then (startDot, length rs + 1, e, preDotState)
         else extname_loop rs startDot startPart e matchedSlash preDotState)
      else
        (let matchedSlash' = (if e = None then False else matchedSlash);
             e' = (if e = None then Some (length rs + 1) else e)
         in if c = CHR ''.'' then
              (if startDot = None then
                 extname_loop rs (Some (length rs)) startPart e' matchedSlash' preDotState
               else if preDotState \<noteq> 1 then
                 extname_loop rs startDot startPart e' matchedSlash' 1
               else extname_loop rs startDot startPart e' matchedSlash' preDotState)
            else if startDot \<noteq> None then
              extname_loop rs startDot startPart e' matchedSlash' (- 1)
            else extname_loop rs startDot startPart e' matchedSlash' preDotState))"

definition extname :: "path \<Rightarrow> string" where
  "extname p =
     (case extname_loop (rev p) None 0 None True 0 of
        (Some startDot, startPart, Some e, preDotState) \<Rightarrow>
          if preDotState = 0 \<or>
             (preDotState = 1 \<and> startDot = e - 1 \<and> startDot = startPart + 1)
          then [] else slice p startDot e
      | _ \<Rightarrow> [])"

text \<open>
  \<open>path.join(dir, name)\<close>, for the arguments the walkers pass: \<open>dir\<close> is a normalised path
  that does not end in a separator (it descends from \<open>path.resolve(__dirname)\<close>) and
  \<open>name\<close> is a directory entry, so the join is the concatenation with one separator.
\<close>

definition path_join :: "path \<Rightarrow> string \<Rightarrow> path" where
  "path_join dir name = dir @ ''/'' @ name"

text \<open>
  \<open>String.prototype.toLowerCase\<close> on the characters of the model (bytes): the ASCII
  capitals are mapped to their small letters.
\<close>

definition toLowerCase_char :: "char \<Rightarrow> char" where
  "toLowerCase_char c =
     (let n = (of_char c :: nat) in if 65 \<le> n \<and> n \<le> 90 then char_of (n + 32) else c)"

definition toLowerCase :: "string \<Rightarrow> string" where
  "toLowerCase s = map toLowerCase_char s"

text \<open>\<open>file.startsWith('.')\<close>\<close>

definition startsWith_dot :: "string \<Rightarrow> bool" where
  "startsWith_dot file = (case file of [] \<Rightarrow> False | c # _ \<Rightarrow> c = CHR ''.'')"

section \<open>Configuration\<close>

text \<open>
  \<open>config.json\<close>, as the scripts read it. An \<open>include\<close> list may be absent
  (the scripts test \<open>list && list.length > 0\<close>): it is an option. The \<open>exclude\<close> lists
  and the extension lists are read unconditionally and are taken to be present. A bit
  rate is a string that may be absent or empty.
\<close>

record name_lists =
  include_list :: "string list option"
  exclude_list :: "string list"

record extension_lists =
  processable :: "string list"
  videoProcessable :: "string list"
  copyOnly :: "string list"
  exclude_ext :: "string list"

record image_quality =
  jpeg :: nat
  png :: nat
  webp :: nat

record image_config =
  enableResize :: bool
  maxWidth :: nat
  quality :: image_quality

record video_quality =
  crf :: nat
  preset :: string
  bitrate :: "string option"

record video_formats =
  outputFormat :: string
  codec :: string

record video_config =
  enableProcessing :: bool
  video_enableResize :: bool
  preserveFormat :: bool
  video_maxWidth :: nat
  video_maxHeight :: nat
  video_quality :: video_quality
  formats :: video_formats

record blur_config =
  strength :: nat
  blur_folders :: name_lists
  blur_files :: name_lists

record config =
  folders :: name_lists
  files :: name_lists
  extensions :: extension_lists
  image_cfg :: image_config
  video_cfg :: video_config
  blur_cfg :: blur_config

section \<open>The rule resolver\<close>

text \<open>\<open>list && list.length > 0\<close>\<close>

definition has_items :: "string list option \<Rightarrow> bool" where
  "has_items l = (case l of None \<Rightarrow> False | Some xs \<Rightarrow> length xs > 0)"

text \<open>\<open>list.includes(x)\<close>\<close>

definition includes_str :: "string list \<Rightarrow> string \<Rightarrow> bool" where
  "includes_str xs x = (x \<in> set xs)"

text \<open>The four predicates are the same in both scripts.\<close>

definition shouldProcessFolder :: "config \<Rightarrow> path \<Rightarrow> bool" where
  "shouldProcessFolder cfg folderPath =
     (let folderName = basename folderPath in
      if has_items (include_list (folders cfg))
      then includes_str (the (include_list (folders cfg))) folderName
      else \<not> includes_str (exclude_list (folders cfg)) folderName)"

definition shouldProcessFile :: "config \<Rightarrow> path \<Rightarrow> bool" where
  "shouldProcessFile cfg filePath =
     (let fileName = basename filePath;
          fileExt = toLowerCase (extname filePath)
      in if includes_str (exclude_list (files cfg)) fileName then False
         else if includes_str (exclude_ext (extensions cfg)) fileExt then False
         else if has_items (include_list (files cfg))
         then includes_str (the (include_list (files cfg))) fileName
         else True)"

definition shouldBlurFolder :: "config \<Rightarrow> path \<Rightarrow> bool" where
  "shouldBlurFolder cfg folderPath =
     (let folderName = basename folderPath in
      if has_items (include_list (blur_folders (blur_cfg cfg)))
      then includes_str (the (include_list (blur_folders (blur_cfg cfg)))) folderName
      else \<not> includes_str (exclude_list (blur_folders (blur_cfg cfg))) folderName)"

definition shouldBlurFile :: "config \<Rightarrow> path \<Rightarrow> bool" where
  "shouldBlurFile cfg filePath =
     (let fileName = basename filePath in
      if includes_str (exclude_list (blur_files (blur_cfg cfg))) fileName then False
      else if has_items (include_list (blur_files (blur_cfg cfg)))
      then includes_str (the (include_list (blur_files (blur_cfg cfg)))) fileName
      else True)"

section \<open>The source tree and the media services\<close>

text \<open>
  A directory listing is a list of entries, in the order \<open>fs.readdirSync\<close> returns them.
  The scripts neither read nor change file contents themselves: they hand each file to
  \<open>fs.copyFileSync\<close>, to sharp or to ffmpeg. What those services answer for a file is
  recorded with the file:
  \<^item> \<open>sharp_metadata\<close>: the width that \<open>sharp(file).metadata()\<close> resolves with,
    \<open>None\<close> when it rejects;
  \<^item> \<open>sharp_toFile_ok\<close>: whether \<open>toFile\<close> resolves;
  \<^item> \<open>ffprobe\<close>: the error or the streams that \<open>ffmpeg.ffprobe\<close> hands to its callback;
  \<^item> \<open>ffmpeg_ok\<close>: whether the ffmpeg command ends (\<open>'end'\<close>) or fails (\<open>'error'\<close>);
  \<^item> \<open>copy_ok\<close>: whether \<open>fs.copyFileSync\<close> of the file to the output path that
    \<open>processVideo\<close> is given returns; otherwise it throws. It throws, for instance,
    when the directory of the output path does not exist: \<open>build()\<close> makes \<open>dist\<close>
    and not \<open>dist/assets\<close>, and the walker makes a directory only for a directory
    entry.
  The primitives \<open>readdirSync\<close>, \<open>lstatSync\<close> and \<open>mkdirp.sync\<close> are taken to succeed,
  and so is \<open>copyFileSync\<close> where the walkers call it themselves (for files that are
  neither images nor videos, and in the raw copy of a folder).
\<close>

record stream =
  codec_type :: string
  width :: nat
  height :: nat

datatype ffprobe_result = ProbeError | ProbeMetadata "stream list"

record file_info =
  sharp_metadata :: "nat option"
  sharp_toFile_ok :: bool
  ffprobe :: ffprobe_result
  ffmpeg_ok :: bool
  copy_ok :: bool

datatype entry = File string file_info | Dir string "entry list"

text \<open>The sharp pipeline that is written with \<open>toFile\<close>.\<close>

record sharp_instance =
  sharp_input :: path
  resize_width :: "nat option"
  blur_sigma :: "nat option"
  jpeg_quality :: nat
  png_compressionLevel :: nat
  webp_quality :: nat

text \<open>The ffmpeg command that is run.\<close>

datatype output_option = Opt_crf nat | Opt_bv_0 | Opt_row_mt_1 | Opt_preset string

record ffmpeg_command =
  ffmpeg_input :: path
  ffmpeg_output :: path
  videoCodec :: string
  outputOptions :: "output_option list"
  cmd_size :: "(nat \<times> nat) option"
  videoBitrate :: "string option"

text \<open>
  The \<open>console.error\<close> lines of the scripts, without the text of the caught error:
  \<open>Error loading config.json\<close>, \<open>Build error\<close>, \<open>Error processing <file>\<close> (image),
  \<open>Error getting video metadata\<close>, \<open>No video stream found in: <file>\<close>,
  \<open>Error processing video <file>\<close> and \<open>Failed to copy video\<close>.
\<close>

datatype message =
    ErrorLoadingConfig
  | BuildError
  | ErrorProcessing path
  | ErrorGettingVideoMetadata
  | NoVideoStreamFound path
  | ErrorProcessingVideo path
  | FailedToCopyVideo

text \<open>
  The effects of a run, in order: directories made, files copied (\<open>CopyFile src dst\<close>),
  images written by sharp, ffmpeg commands that ended or failed, and \<open>console.error\<close>
  lines. \<open>console.log\<close> lines are left out.
\<close>

datatype action =
    Mkdirp path
  | CopyFile path path
  | SharpToFile sharp_instance path
  | FfmpegEnd ffmpeg_command
  | FfmpegError ffmpeg_command
  | ConsoleError message

text \<open>
  How a piece of asynchronous work ends, with the effects made until then: its promise is
  fulfilled, or rejected, or an exception is thrown in a callback that no promise and no
  \<open>try\<close> encloses (\<open>Crashed\<close>): the exception is uncaught, Node ends the process with
  status 1 and nothing that was waiting runs any more.
  \<open>andThen p k\<close> is \<open>await p; k\<close> in an async function: a rejection is thrown and ends
  the function. \<open>catch_p p h\<close> is \<open>p.catch(err => h)\<close> (also
  \<open>try { await p } catch { h }\<close>) for a handler that only logs; it does not see an
  uncaught exception.
\<close>

datatype outcome = Fulfilled | Rejected | Crashed

type_synonym promise = "action list \<times> outcome"

definition andThen :: "promise \<Rightarrow> promise \<Rightarrow> promise" where
  "andThen p k =
     (case p of
        (as, Fulfilled) \<Rightarrow> (as @ fst k, snd k)
      | (as, Rejected) \<Rightarrow> (as, Rejected)
      | (as, Crashed) \<Rightarrow> (as, Crashed))"

definition catch_p :: "promise \<Rightarrow> action list \<Rightarrow> promise" where
  "catch_p p h =
     (case p of
        (as, Fulfilled) \<Rightarrow> (as, Fulfilled)
      | (as, Rejected) \<Rightarrow> (as @ h, Fulfilled)
      | (as, Crashed) \<Rightarrow> (as, Crashed))"

section \<open>The file classifier\<close>

datatype file_type = Processable | Video | CopyOnly | Other

text \<open>\<open>getFileType\<close> of the script with video support.\<close>

definition getFileType :: "config \<Rightarrow> path \<Rightarrow> file_type" where
  "getFileType cfg filePath =
     (let fileExt = toLowerCase (extname filePath) in
      if includes_str (processable (extensions cfg)) fileExt then Processable
      else if includes_str (videoProcessable (extensions cfg)) fileExt then Video
      else if includes_str (copyOnly (extensions cfg)) fileExt then CopyOnly
      else Other)"

text \<open>\<open>getFileType\<close> of \<open>optimize.js\<close>, which knows no videos.\<close>

definition getFileType_basic :: "config \<Rightarrow> path \<Rightarrow> file_type" where
  "getFileType_basic cfg filePath =
     (let fileExt = toLowerCase (extname filePath) in
      if includes_str (processable (extensions cfg)) fileExt then Processable
      else if includes_str (copyOnly (extensions cfg)) fileExt then CopyOnly
      else Other)"

section \<open>Videos\<close>

text \<open>
  The command that \<open>processVideo\<close> builds once the probe has found the video stream
  (from \<open>const originalWidth\<close> to the bit rate). When the format is not preserved the
  output file is the output path with its extension replaced by the configured format.
\<close>

definition truthy :: "string option \<Rightarrow> bool" where
  "truthy s = (case s of None \<Rightarrow> False | Some v \<Rightarrow> v \<noteq> [])"

definition videoCommand :: "config \<Rightarrow> path \<Rightarrow> path \<Rightarrow> stream \<Rightarrow> ffmpeg_command" where
  "videoCommand cfg inputPath outputPath videoStream =
     (let originalWidth = width videoStream;
          originalHeight = height videoStream;
          inputFormat = toLowerCase (extname inputPath);
          vcodec = (if preserveFormat (video_cfg cfg) then
                      (if inputFormat = ''.webm'' then ''libvpx-vp9''
                       else if inputFormat = ''.mp4'' then ''libx264''
                       else codec (formats (video_cfg cfg)))
                    else codec (formats (video_cfg cfg)));
          outputFile = (if preserveFormat (video_cfg cfg) then outputPath
                        else take (length outputPath - length (extname outputPath)) outputPath
                             @ ''.'' @ outputFormat (formats (video_cfg cfg)));
          options = (if vcodec = ''libvpx-vp9''
                     then [Opt_crf (crf (video_quality (video_cfg cfg))), Opt_bv_0, Opt_row_mt_1]
                     else [Opt_crf (crf (video_quality (video_cfg cfg))),
                           Opt_preset (preset (video_quality (video_cfg cfg)))]);
          needsResize = (originalWidth > video_maxWidth (video_cfg cfg)
                         \<or> originalHeight > video_maxHeight (video_cfg cfg))
      in \<lparr> ffmpeg_input = inputPath,
           ffmpeg_output = outputFile,
           videoCodec = vcodec,
           outputOptions = options,
           cmd_size = (if video_enableResize (video_cfg cfg) then
                         (if needsResize
                          then Some (video_maxWidth (video_cfg cfg), video_maxHeight (video_cfg cfg))
                          else None)
                       else None),
           videoBitrate = (if truthy (bitrate (video_quality (video_cfg cfg)))
                              \<and> vcodec \<noteq> ''libvpx-vp9''
                           then bitrate (video_quality (video_cfg cfg)) else None) \<rparr>)"

text \<open>
  \<open>processVideo(inputPath, outputPath)\<close>. The copy of the disabled branch stands in the
  executor of the promise: when it throws, the promise is rejected. The copies after a
  failed probe and after a probe without video stream stand in the callback of
  \<open>ffprobe\<close>, outside any \<open>try\<close>: when they throw, the exception is uncaught and the
  promise is never settled. The copy in the \<open>'error'\<close> handler of the ffmpeg command
  stands in \<open>try { ... } catch (copyErr) { console.error(...) }\<close>, followed by
  \<open>resolve()\<close>.
\<close>

definition processVideo :: "config \<Rightarrow> file_info \<Rightarrow> path \<Rightarrow> path \<Rightarrow> promise" where
  "processVideo cfg info inputPath outputPath =
     (if \<not> enableProcessing (video_cfg cfg) then
        (if copy_ok info then ([CopyFile inputPath outputPath], Fulfilled)
         else ([], Rejected))
      else
        (case ffprobe info of
           ProbeError \<Rightarrow>
             (if copy_ok info
              then ([ConsoleError ErrorGettingVideoMetadata, CopyFile inputPath outputPath],
                    Fulfilled)
              else ([ConsoleError ErrorGettingVideoMetadata], Crashed))
         | ProbeMetadata streams \<Rightarrow>
             (case find (\<lambda>s. codec_type s = ''video'') streams of
                None \<Rightarrow>
                  (if copy_ok info
                   then ([ConsoleError (NoVideoStreamFound inputPath),
                          CopyFile inputPath outputPath], Fulfilled)
                   else ([ConsoleError (NoVideoStreamFound inputPath)], Crashed))
              | Some videoStream \<Rightarrow>
                  (let command = videoCommand cfg inputPath outputPath videoStream in
                   if ffmpeg_ok info then ([FfmpegEnd command], Fulfilled)
                   else ([FfmpegError command, ConsoleError (ErrorProcessingVideo inputPath)]
                         @ (if copy_ok info then [CopyFile inputPath outputPath]
                            else [ConsoleError FailedToCopyVideo]),
                         Fulfilled)))))"

section \<open>Images\<close>

text \<open>
  The pipeline built in the \<open>then\<close> callback of \<open>metadata()\<close>, in the script with video
  support (which consults \<open>image.enableResize\<close>) and in \<open>optimize.js\<close> (which does not).
\<close>

definition sharpInstance :: "config \<Rightarrow> path \<Rightarrow> nat \<Rightarrow> bool \<Rightarrow> sharp_instance" where
  "sharpInstance cfg filePath metadata_width shouldBlurThisFile =
     \<lparr> sharp_input = filePath,
       resize_width = (if enableResize (image_cfg cfg) \<and> metadata_width \<ge> maxWidth (image_cfg cfg)
                       then Some (maxWidth (image_cfg cfg)) else None),
       blur_sigma = (if shouldBlurThisFile then Some (strength (blur_cfg cfg)) else None),
       jpeg_quality = jpeg (quality (image_cfg cfg)),
       png_compressionLevel = png (quality (image_cfg cfg)),
       webp_quality = webp (quality (image_cfg cfg)) \<rparr>"

definition sharpInstance_basic :: "config \<Rightarrow> path \<Rightarrow> nat \<Rightarrow> bool \<Rightarrow> sharp_instance" where
  "sharpInstance_basic cfg filePath metadata_width shouldBlurThisFile =
     \<lparr> sharp_input = filePath,
       resize_width = (if metadata_width \<ge> maxWidth (image_cfg cfg)
                       then Some (maxWidth (image_cfg cfg)) else None),
       blur_sigma = (if shouldBlurThisFile then Some (strength (blur_cfg cfg)) else None),
       jpeg_quality = jpeg (quality (image_cfg cfg)),
       png_compressionLevel = png (quality (image_cfg cfg)),
       webp_quality = webp (quality (image_cfg cfg)) \<rparr>"

text \<open>
  The promise chain \<open>sharp(filePath).metadata().then(...).catch(...)\<close>, for a pipeline
  given as a function of the width.
\<close>

definition optimizeImage ::
  "(nat \<Rightarrow> sharp_instance) \<Rightarrow> file_info \<Rightarrow> path \<Rightarrow> path \<Rightarrow> promise" where
  "optimizeImage pipeline info filePath outputFilePath =
     catch_p
       (case sharp_metadata info of
          None \<Rightarrow> ([], Rejected)
        | Some metadata_width \<Rightarrow>
            (if sharp_toFile_ok info
             then ([SharpToFile (pipeline metadata_width) outputFilePath], Fulfilled)
             else ([], Rejected)))
       [ConsoleError (ErrorProcessing filePath)]"

section \<open>The tree walkers\<close>

text \<open>
  \<open>copyFolderContentsDirectly(source, target)\<close>, on the listing of \<open>source\<close>.
\<close>

function copyFolderContentsDirectly :: "path \<Rightarrow> path \<Rightarrow> entry list \<Rightarrow> action list" where
  "copyFolderContentsDirectly source target [] = []"
| "copyFolderContentsDirectly source target (Dir file sub # rest) =
     (if startsWith_dot file then copyFolderContentsDirectly source target rest
      else
        (let filePath = path_join source file;
             outputFilePath = path_join target file
         in Mkdirp outputFilePath # copyFolderContentsDirectly filePath outputFilePath sub
            @ copyFolderContentsDirectly source target rest))"
| "copyFolderContentsDirectly source target (File file info # rest) =
     (if startsWith_dot file then copyFolderContentsDirectly source target rest
      else
        (let filePath = path_join source file;
             outputFilePath = path_join target file
         in CopyFile filePath outputFilePath # copyFolderContentsDirectly source target rest))"
  by pat_completeness auto
termination
  by (relation "measure (\<lambda>(source, target, entries). size_list size entries)") auto

text \<open>
  \<open>optimizeAndBlurImages(source, target, applyBlur, parentBlurAllowed)\<close> of the script
  with video support, on the listing of \<open>source\<close>. The function is async and awaits the
  image chain, \<open>processVideo\<close> and its own recursive call.
\<close>

function optimizeAndBlurImages ::
  "config \<Rightarrow> path \<Rightarrow> path \<Rightarrow> bool \<Rightarrow> bool \<Rightarrow> entry list \<Rightarrow> promise" where
  "optimizeAndBlurImages cfg source target applyBlur parentBlurAllowed [] = ([], Fulfilled)"
| "optimizeAndBlurImages cfg source target applyBlur parentBlurAllowed (Dir file sub # rest) =
     (if startsWith_dot file
      then optimizeAndBlurImages cfg source target applyBlur parentBlurAllowed rest
      else
        (let filePath = path_join source file;
             outputFilePath = path_join target file;
             shouldProcess = shouldProcessFolder cfg filePath
         in if \<not> shouldProcess then
              andThen
                (Mkdirp outputFilePath
                   # copyFolderContentsDirectly filePath outputFilePath sub, Fulfilled)
                (optimizeAndBlurImages cfg source target applyBlur parentBlurAllowed rest)
            else
              (let folderAllowsBlur = shouldBlurFolder cfg filePath;
                   blurForThisFolder = (applyBlur \<and> parentBlurAllowed \<and> folderAllowsBlur)
               in andThen
                    (andThen ([Mkdirp outputFilePath], Fulfilled)
                       (optimizeAndBlurImages cfg filePath outputFilePath applyBlur
                          blurForThisFolder sub))
                    (optimizeAndBlurImages cfg source target applyBlur parentBlurAllowed rest))))"
| "optimizeAndBlurImages cfg source target applyBlur parentBlurAllowed (File file info # rest) =
     (if startsWith_dot file
      then optimizeAndBlurImages cfg source target applyBlur parentBlurAllowed rest
      else
        (let filePath = path_join source file;
             outputFilePath = path_join target file
         in if \<not> shouldProcessFile cfg filePath
            then optimizeAndBlurImages cfg source target applyBlur parentBlurAllowed rest
            else
              (let fileType = getFileType cfg filePath in
               andThen
                 (if fileType = Processable then
                    (let fileAllowsBlur = shouldBlurFile cfg filePath;
                         shouldBlurThisFile = (applyBlur \<and> parentBlurAllowed \<and> fileAllowsBlur)
                     in optimizeImage (\<lambda>w. sharpInstance cfg filePath w shouldBlurThisFile)
                          info filePath outputFilePath)
                  else if fileType = Video then processVideo cfg info filePath outputFilePath
                  else if fileType = CopyOnly then ([CopyFile filePath outputFilePath], Fulfilled)
                  else ([CopyFile filePath outputFilePath], Fulfilled))
                 (optimizeAndBlurImages cfg source target applyBlur parentBlurAllowed rest))))"
  by pat_completeness auto
termination
  by (relation "measure (\<lambda>(cfg, source, target, applyBlur, parentBlurAllowed, entries).
                   size_list size entries)") auto

text \<open>
  \<open>optimizeAndBlurImages\<close> of \<open>optimize.js\<close>: synchronous, a \<open>forEach\<close> over the listing.
  The image chain is started and not awaited; its effects are recorded where it is
  started.
\<close>

function optimizeAndBlurImages_basic ::
  "config \<Rightarrow> path \<Rightarrow> path \<Rightarrow> bool \<Rightarrow> bool \<Rightarrow> entry list \<Rightarrow> action list" where
  "optimizeAndBlurImages_basic cfg source target applyBlur parentBlurAllowed [] = []"
| "optimizeAndBlurImages_basic cfg source target applyBlur parentBlurAllowed (Dir file sub # rest) =
     (if startsWith_dot file
      then optimizeAndBlurImages_basic cfg source target applyBlur parentBlurAllowed rest
      else
        (let filePath = path_join source file;
             outputFilePath = path_join target file
         in if \<not> shouldProcessFolder cfg filePath
            then optimizeAndBlurImages_basic cfg source target applyBlur parentBlurAllowed rest
            else
              (let folderAllowsBlur = shouldBlurFolder cfg filePath;
                   blurForThisFolder = (applyBlur \<and> parentBlurAllowed \<and> folderAllowsBlur)
               in Mkdirp outputFilePath
                    # optimizeAndBlurImages_basic cfg filePath outputFilePath applyBlur
                        blurForThisFolder sub
                    @ optimizeAndBlurImages_basic cfg source target applyBlur parentBlurAllowed
                        rest)))"
| "optimizeAndBlurImages_basic cfg source target applyBlur parentBlurAllowed (File file info # rest) =
     (if startsWith_dot file
      then optimizeAndBlurImages_basic cfg source target applyBlur parentBlurAllowed rest
      else
        (let filePath = path_join source file;
             outputFilePath = path_join target file
         in if \<not> shouldProcessFile cfg filePath
            then optimizeAndBlurImages_basic cfg source target applyBlur parentBlurAllowed rest
            else
              (let fileType = getFileType_basic cfg filePath in
               (if fileType = Processable then
                  (let fileAllowsBlur = shouldBlurFile cfg filePath;
                       shouldBlurThisFile = (applyBlur \<and> parentBlurAllowed \<and> fileAllowsBlur)
                   in fst (optimizeImage (\<lambda>w. sharpInstance_basic cfg filePath w shouldBlurThisFile)
                             info filePath outputFilePath))
                else if fileType = CopyOnly then [CopyFile filePath outputFilePath]
                else [CopyFile filePath outputFilePath])
               @ optimizeAndBlurImages_basic cfg source target applyBlur parentBlurAllowed rest)))"
  by pat_completeness auto
termination
  by (relation "measure (\<lambda>(cfg, source, target, applyBlur, parentBlurAllowed, entries).
                   size_list size entries)") auto

section \<open>The build\<close>

text \<open>
  \<open>build()\<close> of the script with video support, in the directory \<open>dirname\<close> whose
  \<open>assets\<close> folder has the listing \<open>assets\<close>: everything is inside
  \<open>try { ... } catch (error) { console.error(...) }\<close>. The script exits with status 1
  when \<open>config.json\<close> cannot be loaded; otherwise it calls \<open>build()\<close>, and Node ends
  the process with status 0 when the promise of \<open>build()\<close> is fulfilled and with
  status 1 after an uncaught exception or an unhandled rejection.
\<close>

definition build :: "config \<Rightarrow> bool \<Rightarrow> path \<Rightarrow> entry list \<Rightarrow> promise" where
  "build cfg shouldBlur dirname assets =
     (let sourceDir = dirname;
          targetDir = path_join dirname ''dist''
      in catch_p
           (andThen ([Mkdirp targetDir], Fulfilled)
              (optimizeAndBlurImages cfg (path_join sourceDir ''assets'')
                 (path_join targetDir ''assets'') shouldBlur True assets))
           [ConsoleError BuildError])"

definition script :: "config option \<Rightarrow> bool \<Rightarrow> path \<Rightarrow> entry list \<Rightarrow> action list \<times> nat" where
  "script loaded shouldBlur dirname assets =
     (case loaded of
        None \<Rightarrow> ([ConsoleError ErrorLoadingConfig], 1)
      | Some cfg \<Rightarrow>
          (let p = build cfg shouldBlur dirname assets
           in (fst p, if snd p = Fulfilled then 0 else 1)))"

section \<open>Auxiliary notions\<close>

text \<open>
  A string without separator and a string of separators only. The remaining definitions
  of this section serve the proofs about \<open>extname\<close>: one step of its loop on a character
  that is not a separator, the loop on a state, and the shift of the indices in a state
  by the length of a prefix of the path.
\<close>

definition slash_free :: "string \<Rightarrow> bool" where
  "slash_free s = (CHR ''/'' \<notin> set s)"

definition all_slashes :: "string \<Rightarrow> bool" where
  "all_slashes s = (set s \<subseteq> {CHR ''/''})"

type_synonym ext_state = "nat option \<times> nat option \<times> bool \<times> int"

definition ext_step :: "char \<Rightarrow> nat \<Rightarrow> ext_state \<Rightarrow> ext_state" where
  "ext_step c i st =
     (case st of (startDot, e, matchedSlash, preDotState) \<Rightarrow>
        (let matchedSlash' = (if e = None then False else matchedSlash);
             e' = (if e = None then Some (i + 1) else e)
         in if c = CHR ''.'' then
              (if startDot = None then (Some i, e', matchedSlash', preDotState)
               else if preDotState \<noteq> 1 then (startDot, e', matchedSlash', 1)
               else (startDot, e', matchedSlash', preDotState))
            else if startDot \<noteq> None then (startDot, e', matchedSlash', - 1)
            else (startDot, e', matchedSlash', preDotState)))"

definition ext_run :: "string \<Rightarrow> nat \<Rightarrow> ext_state \<Rightarrow> nat option \<times> nat \<times> nat option \<times> int" where
  "ext_run rs startPart st =
     (case st of (startDot, e, matchedSlash, preDotState) \<Rightarrow>
        extname_loop rs startDot startPart e matchedSlash preDotState)"

definition shift_state :: "nat \<Rightarrow> ext_state \<Rightarrow> ext_state" where
  "shift_state k st =
     (case st of (startDot, e, matchedSlash, preDotState) \<Rightarrow>
        (map_option (\<lambda>n. n + k) startDot, map_option (\<lambda>n. n + k) e, matchedSlash, preDotState))"

definition shift_result ::
  "nat \<Rightarrow> nat option \<times> nat \<times> nat option \<times> int \<Rightarrow> nat option \<times> nat \<times> nat option \<times> int" where
  "shift_result k t =
     (case t of (startDot, startPart, e, preDotState) \<Rightarrow>
        (map_option (\<lambda>n. n + k) startDot, k, map_option (\<lambda>n. n + k) e, preDotState))"

definition ext_result :: "string \<Rightarrow> nat option \<times> nat \<times> nat option \<times> int \<Rightarrow> string" where
  "ext_result p t =
     (case t of
        (Some startDot, startPart, Some e, preDotState) \<Rightarrow>
          if preDotState = 0 \<or>
             (preDotState = 1 \<and> startDot = e - 1 \<and> startDot = startPart + 1)
          then [] else slice p startDot e
      | _ \<Rightarrow> [])"

definition scanning :: "ext_state \<Rightarrow> bool" where
  "scanning st = (case st of (startDot, e, matchedSlash, preDotState) \<Rightarrow> e \<noteq> None \<and> \<not> matchedSlash)"

definition initial :: "ext_state \<Rightarrow> bool" where
  "initial st = (case st of (startDot, e, matchedSlash, preDotState) \<Rightarrow> e = None)"

text \<open>
  What the walkers do with a file that passed \<open>shouldProcessFile\<close>: the dispatch on the
  file type, in the script with video support and in \<open>optimize.js\<close>. \<open>blurHere\<close> is
  \<open>applyBlur && parentBlurAllowed\<close>.
\<close>

definition file_promise :: "config \<Rightarrow> bool \<Rightarrow> file_info \<Rightarrow> path \<Rightarrow> path \<Rightarrow> promise" where
  "file_promise cfg blurHere info filePath outputFilePath =
     (if getFileType cfg filePath = Processable then
        optimizeImage (\<lambda>w. sharpInstance cfg filePath w (blurHere \<and> shouldBlurFile cfg filePath))
          info filePath outputFilePath
      else if getFileType cfg filePath = Video then processVideo cfg info filePath outputFilePath
      else ([CopyFile filePath outputFilePath], Fulfilled))"

definition file_actions_basic :: "config \<Rightarrow> bool \<Rightarrow> file_info \<Rightarrow> path \<Rightarrow> path \<Rightarrow> action list" where
  "file_actions_basic cfg blurHere info filePath outputFilePath =
     (if getFileType_basic cfg filePath = Processable then
        fst (optimizeImage
               (\<lambda>w. sharpInstance_basic cfg filePath w (blurHere \<and> shouldBlurFile cfg filePath))
               info filePath outputFilePath)
      else [CopyFile filePath outputFilePath])"

section \<open>Notions used to state the properties\<close>

text \<open>An entry name, as \<open>readdirSync\<close> returns it: not empty, no separator.\<close>

definition valid_name :: "string \<Rightarrow> bool" where
  "valid_name n = (n \<noteq> [] \<and> slash_free n)"

text \<open>An action that blurs: a sharp pipeline with a blur step.\<close>

definition blurs :: "action \<Rightarrow> bool" where
  "blurs a = (case a of SharpToFile inst out \<Rightarrow> blur_sigma inst \<noteq> None | _ \<Rightarrow> False)"

text \<open>An action of sharp or ffmpeg: anything that resizes, recompresses or blurs.\<close>

definition transforms :: "action \<Rightarrow> bool" where
  "transforms a =
     (case a of SharpToFile inst out \<Rightarrow> True | FfmpegEnd c \<Rightarrow> True | FfmpegError c \<Rightarrow> True
      | _ \<Rightarrow> False)"

text \<open>An action that writes with sharp.\<close>

definition uses_sharp :: "action \<Rightarrow> bool" where
  "uses_sharp a = (case a of SharpToFile inst out \<Rightarrow> True | _ \<Rightarrow> False)"


text \<open>
  \<open>visible_file entries names\<close>: following \<open>names\<close> from the listing \<open>entries\<close> leads
  through directories to a file, and no name on the way starts with a dot.
\<close>

inductive visible_file :: "entry list \<Rightarrow> string list \<Rightarrow> bool" where
  here: "File n info \<in> set entries \<Longrightarrow> \<not> startsWith_dot n \<Longrightarrow> visible_file entries [n]"
| below: "Dir n sub \<in> set entries \<Longrightarrow> \<not> startsWith_dot n \<Longrightarrow> visible_file sub names
          \<Longrightarrow> visible_file entries (n # names)"

code_pred visible_file .

text \<open>The path reached from \<open>p\<close> by joining the names in turn.\<close>

definition joins :: "path \<Rightarrow> string list \<Rightarrow> path" where
  "joins p names = foldl path_join p names"

section \<open>An example configuration and example files\<close>

definition example_config :: config where
  "example_config =
     \<lparr> folders = \<lparr> include_list = Some [], exclude_list = [''raw''] \<rparr>,
       files = \<lparr> include_list = None, exclude_list = [''skip.jpg''] \<rparr>,
       extensions = \<lparr> processable = [''.jpg'', ''.png''],
                      videoProcessable = [''.mp4'', ''.webm''],
                      copyOnly = [''.svg''], exclude_ext = [''.tmp''] \<rparr>,
       image_cfg = \<lparr> enableResize = False, maxWidth = 700,
                     quality = \<lparr> jpeg = 80, png = 9, webp = 80 \<rparr> \<rparr>,
       video_cfg = \<lparr> enableProcessing = True, video_enableResize = True,
                     preserveFormat = True, video_maxWidth = 1920, video_maxHeight = 1080,
                     video_quality = \<lparr> crf = 28, preset = ''medium'', bitrate = Some ''1000k'' \<rparr>,
                     formats = \<lparr> outputFormat = ''mp4'', codec = ''libx264'' \<rparr> \<rparr>,
       blur_cfg = \<lparr> strength = 5,
                    blur_folders = \<lparr> include_list = None, exclude_list = [''team''] \<rparr>,
                    blur_files = \<lparr> include_list = Some [], exclude_list = [] \<rparr> \<rparr> \<rparr>"

text \<open>The example with resizing enabled, to width 800.\<close>

definition resizing_config :: config where
  "resizing_config =
     example_config\<lparr>image_cfg := (image_cfg example_config)\<lparr>enableResize := True, maxWidth := 800\<rparr>\<rparr>"

text \<open>An image of the given width that sharp handles.\<close>

definition image_file :: "nat \<Rightarrow> file_info" where
  "image_file w =
     \<lparr> sharp_metadata = Some w, sharp_toFile_ok = True, ffprobe = ProbeError, ffmpeg_ok = False,
       copy_ok = True \<rparr>"

text \<open>A file that neither sharp nor ffprobe can read, and that can be copied.\<close>

definition corrupt_file :: file_info where
  "corrupt_file =
     \<lparr> sharp_metadata = None, sharp_toFile_ok = False, ffprobe = ProbeError, ffmpeg_ok = False,
       copy_ok = True \<rparr>"

text \<open>
  The same file when its copy throws, as on a first run, where \<open>dist/assets\<close> does not
  exist when a file at the top of \<open>assets\<close> is reached.
\<close>

definition corrupt_file_no_copy :: file_info where
  "corrupt_file_no_copy = corrupt_file\<lparr>copy_ok := False\<rparr>"

text \<open>A video of the given dimensions, with an audio stream first.\<close>

definition video_file :: "nat \<Rightarrow> nat \<Rightarrow> bool \<Rightarrow> file_info" where
  "video_file w h ok =
     \<lparr> sharp_metadata = None, sharp_toFile_ok = False,
       ffprobe = ProbeMetadata [\<lparr> codec_type = ''audio'', width = 0, height = 0 \<rparr>,
                                \<lparr> codec_type = ''video'', width = w, height = h \<rparr>],
       ffmpeg_ok = ok, copy_ok = True \<rparr>"

section \<open>Facts about paths\<close>

lemma basename_loop_skip:
  "all_slashes sl \<Longrightarrow> basename_loop (sl @ r) s None True = basename_loop r s None True"
  by (induction sl) (auto simp: all_slashes_def)

lemma basename_loop_run:
  "slash_free xs \<Longrightarrow> basename_loop (xs @ rest) s (Some n) False = basename_loop rest s (Some n) False"
  by (induction xs) (auto simp: slash_free_def)

lemma basename_loop_first:
  assumes "slash_free xs" "xs \<noteq> []"
  shows "basename_loop (xs @ rest) s None True = basename_loop rest s (Some (length xs + length rest)) False"
proof (cases xs)
  case Nil with assms show ?thesis by simp
next
  case (Cons c cs)
  with assms have c: "c \<noteq> CHR ''/''" and cs: "slash_free cs" by (auto simp: slash_free_def)
  show ?thesis using c basename_loop_run[OF cs] by (simp add: Cons)
qed

lemma basename_loop_stop:
  "rest = [] \<or> hd rest = CHR ''/'' \<Longrightarrow> basename_loop rest 0 (Some n) False = (length rest, Some n)"
  by (cases rest) auto

lemma slice_mid: "slice (a @ b @ c) (length a) (length a + length b) = b"
  by (simp add: slice_def)

lemma basename_decomp:
  assumes "slash_free n" "n \<noteq> []" "pre = [] \<or> last pre = CHR ''/''" "all_slashes sl"
  shows "basename (pre @ n @ sl) = n"
proof -
  have 1: "all_slashes (rev sl)" "slash_free (rev n)" "rev n \<noteq> []"
    using assms by (auto simp: all_slashes_def slash_free_def)
  have 2: "rev pre = [] \<or> hd (rev pre) = CHR ''/''"
    using assms(3) by (auto simp: hd_rev)
  have "basename_loop (rev (pre @ n @ sl)) 0 None True = (length pre, Some (length n + length pre))"
    using basename_loop_skip[OF 1(1)] basename_loop_first[OF 1(2,3)] basename_loop_stop[OF 2]
    by simp
  then show ?thesis using slice_mid[of pre n sl] by (simp add: basename_def add.commute)
qed

lemma basename_all_slashes: "all_slashes p \<Longrightarrow> basename p = []"
proof -
  assume "all_slashes p"
  then have "all_slashes (rev p)" by (simp add: all_slashes_def)
  from basename_loop_skip[OF this, of "[]" 0] show ?thesis by (simp add: basename_def)
qed

lemma path_decomp:
  "all_slashes p \<or> (\<exists>pre n sl. p = pre @ n @ sl \<and> slash_free n \<and> n \<noteq> [] \<and>
      (pre = [] \<or> last pre = CHR ''/'') \<and> all_slashes sl)"
proof (cases "all_slashes p")
  case True then show ?thesis by simp
next
  case False
  define r where "r = rev p"
  define sl' where "sl' = takeWhile (\<lambda>c. c = CHR ''/'') r"
  define r1 where "r1 = dropWhile (\<lambda>c. c = CHR ''/'') r"
  define xs where "xs = takeWhile (\<lambda>c. c \<noteq> CHR ''/'') r1"
  define rest where "rest = dropWhile (\<lambda>c. c \<noteq> CHR ''/'') r1"
  have r: "r = sl' @ xs @ rest" by (simp add: sl'_def r1_def xs_def rest_def)
  have sl: "all_slashes sl'" by (auto simp: all_slashes_def sl'_def dest: set_takeWhileD)
  have xsf: "slash_free xs" by (auto simp: slash_free_def xs_def dest: set_takeWhileD)
  have r1n: "r1 \<noteq> []" using False
    by (auto simp: r1_def r_def all_slashes_def)
  have "hd r1 \<noteq> CHR ''/''"
    using r1n hd_dropWhile[of "\<lambda>c. c = CHR ''/''" r] by (simp add: r1_def)
  with r1n have xsn: "xs \<noteq> []" by (cases r1) (simp_all add: xs_def)
  have rs: "rest = [] \<or> hd rest = CHR ''/''"
    using hd_dropWhile[of "\<lambda>c. c \<noteq> CHR ''/''" r1] by (auto simp: rest_def)
  have p: "p = rev rest @ rev xs @ rev sl'" using r by (simp add: r_def rev_swap)
  have "rev rest = [] \<or> last (rev rest) = CHR ''/''" using rs by (cases rest) auto
  moreover have "slash_free (rev xs)" "rev xs \<noteq> []" "all_slashes (rev sl')"
    using xsf xsn sl by (auto simp: slash_free_def all_slashes_def)
  ultimately show ?thesis using p by (intro disjI2 exI[of _ "rev rest"] exI[of _ "rev xs"] exI[of _ "rev sl'"]) simp
qed

lemma basename_path_join:
  assumes "slash_free n" "n \<noteq> []" shows "basename (path_join d n) = n"
  using basename_decomp[OF assms, of "d @ ''/''" "[]"] by (simp add: path_join_def all_slashes_def)

lemma basename_name:
  assumes "slash_free n" "n \<noteq> []" shows "basename n = n"
  using basename_decomp[OF assms, of "[]" "[]"] by (simp add: all_slashes_def)

lemma extname_ext_run: "extname p = ext_result p (ext_run (rev p) 0 (None, None, True, 0))"
  by (simp add: extname_def ext_result_def ext_run_def)

lemma ext_run_Nil: "ext_run [] sp (sd, e, ms, pds) = (sd, sp, e, pds)"
  by (simp add: ext_run_def)

lemma ext_run_slash_stop:
  "scanning st \<Longrightarrow> ext_run (CHR ''/'' # pre) sp st = (fst st, Suc (length pre), fst (snd st), snd (snd (snd st)))"
  by (cases st) (simp add: ext_run_def scanning_def)

lemma ext_run_step:
  "c \<noteq> CHR ''/'' \<Longrightarrow> ext_run (c # rs) sp st = ext_run rs sp (ext_step c (length rs) st)"
  by (cases st) (simp add: ext_run_def ext_step_def Let_def)

lemma ext_run_skip:
  "all_slashes sl \<Longrightarrow> ext_run (sl @ r) sp (None, None, True, pds) = ext_run r sp (None, None, True, pds)"
  by (induction sl) (auto simp: all_slashes_def ext_run_def)

lemma ext_step_shift: "ext_step c (i + k) (shift_state k st) = shift_state k (ext_step c i st)"
  by (cases st) (auto simp: ext_step_def shift_state_def Let_def)

lemma ext_step_scanning: "scanning st \<or> initial st \<Longrightarrow> scanning (ext_step c i st)"
  by (cases st) (auto simp: ext_step_def scanning_def initial_def Let_def)

lemma ext_run_shift:
  assumes "slash_free xs" "scanning st \<or> (initial st \<and> xs \<noteq> [])"
  shows "ext_run (xs @ CHR ''/'' # pre) sp (shift_state (Suc (length pre)) st)
         = shift_result (Suc (length pre)) (ext_run xs sp0 st)"
  using assms
proof (induction xs arbitrary: st)
  case Nil
  then have sc: "scanning st" by simp
  then have "scanning (shift_state (Suc (length pre)) st)"
    by (cases st) (simp add: scanning_def shift_state_def)
  from ext_run_slash_stop[OF this] show ?case
    by (cases st) (simp add: shift_state_def shift_result_def ext_run_def)
next
  case (Cons c xs)
  then have c: "c \<noteq> CHR ''/''" and xs: "slash_free xs" by (auto simp: slash_free_def)
  have sc: "scanning (ext_step c (length xs) st)"
    using Cons.prems(2) by (intro ext_step_scanning) auto
  have "ext_run ((c # xs) @ CHR ''/'' # pre) sp (shift_state (Suc (length pre)) st)
        = ext_run (xs @ CHR ''/'' # pre) sp
            (ext_step c (length xs + Suc (length pre)) (shift_state (Suc (length pre)) st))"
    using ext_run_step[OF c, of "xs @ CHR ''/'' # pre"] by simp
  also have "\<dots> = ext_run (xs @ CHR ''/'' # pre) sp
            (shift_state (Suc (length pre)) (ext_step c (length xs) st))"
    by (simp only: ext_step_shift)
  also have "\<dots> = shift_result (Suc (length pre)) (ext_run xs sp0 (ext_step c (length xs) st))"
    using Cons.IH[OF xs, of "ext_step c (length xs) st"] sc by simp
  also have "\<dots> = shift_result (Suc (length pre)) (ext_run (c # xs) sp0 st)"
    using ext_run_step[OF c, of xs sp0 st] by simp
  finally show ?case .
qed

lemma ext_run_end_keep:
  "slash_free xs \<Longrightarrow> scanning st \<Longrightarrow> fst (snd st) = Some n \<Longrightarrow>
     \<exists>sd pds. ext_run xs sp st = (sd, sp, Some n, pds)"
proof (induction xs arbitrary: st)
  case Nil then show ?case by (cases st) (simp add: ext_run_def)
next
  case (Cons c xs)
  then have c: "c \<noteq> CHR ''/''" and xs: "slash_free xs" by (auto simp: slash_free_def)
  have sc: "scanning (ext_step c (length xs) st)" using Cons.prems(2) by (intro ext_step_scanning) auto
  have e: "fst (snd (ext_step c (length xs) st)) = Some n"
    using Cons.prems(3) by (cases st) (auto simp: ext_step_def Let_def)
  from Cons.IH[OF xs sc e] show ?case using ext_run_step[OF c, of xs sp st] by simp
qed

lemma ext_run_end:
  assumes "slash_free xs" "xs \<noteq> []"
  shows "\<exists>sd pds. ext_run xs sp (None, None, True, 0) = (sd, sp, Some (length xs), pds)"
proof (cases xs)
  case Nil with assms show ?thesis by simp
next
  case (Cons c cs)
  with assms have c: "c \<noteq> CHR ''/''" and cs: "slash_free cs" by (auto simp: slash_free_def)
  have sc: "scanning (ext_step c (length cs) (None, None, True, 0))"
    by (intro ext_step_scanning) (simp add: initial_def)
  have e: "fst (snd (ext_step c (length cs) (None, None, True, 0))) = Some (length xs)"
    by (auto simp: ext_step_def Let_def Cons)
  from ext_run_end_keep[OF cs sc e] show ?thesis using ext_run_step[OF c, of cs sp] by (simp add: Cons)
qed

lemma slice_shift:
  "slice (pre @ n @ sl) (a + length pre) (length n + length pre) = slice n a (length n)"
  by (simp add: slice_def)

lemma extname_decomp:
  assumes "slash_free n" "n \<noteq> []" "pre = [] \<or> last pre = CHR ''/''" "all_slashes sl"
  shows "extname (pre @ n @ sl) = extname n"
proof -
  have 1: "all_slashes (rev sl)" "slash_free (rev n)" "rev n \<noteq> []"
    using assms by (auto simp: all_slashes_def slash_free_def)
  obtain sd pds where run: "ext_run (rev n) 0 (None, None, True, 0) = (sd, 0, Some (length n), pds)"
    using ext_run_end[OF 1(2,3), of 0] by auto
  have n: "extname n = ext_result n (sd, 0, Some (length n), pds)"
    by (simp add: extname_ext_run run)
  have ln: "0 < length n" using assms(2) by simp
  show ?thesis
  proof (cases "pre = []")
    case True
    have "ext_run (rev (pre @ n @ sl)) 0 (None, None, True, 0) = (sd, 0, Some (length n), pds)"
      using ext_run_skip[OF 1(1), of "rev n" 0 0] run by (simp add: True)
    then have "extname (pre @ n @ sl) = ext_result (pre @ n @ sl) (sd, 0, Some (length n), pds)"
      by (simp only: extname_ext_run)
    also have "\<dots> = ext_result n (sd, 0, Some (length n), pds)"
      using slice_shift[of "[]" n sl] by (cases sd) (simp_all add: ext_result_def True)
    finally show ?thesis by (simp add: n)
  next
    case False
    with assms(3) obtain pre' where pre: "pre = pre' @ ''/''"
      by (metis append_butlast_last_id)
    have k: "Suc (length (rev pre')) = length pre" by (simp add: pre)
    have "ext_run (rev (pre @ n @ sl)) 0 (None, None, True, 0)
          = ext_run (rev n @ CHR ''/'' # rev pre') 0 (shift_state (Suc (length (rev pre'))) (None, None, True, 0))"
      using ext_run_skip[OF 1(1), of "rev n @ CHR ''/'' # rev pre'" 0 0]
      by (simp add: pre shift_state_def)
    also have "\<dots> = shift_result (length pre) (sd, 0, Some (length n), pds)"
      using ext_run_shift[OF 1(2), of "(None, None, True, 0)" "rev pre'" 0 0] 1(3) run k
      by (simp add: initial_def)
    finally have "extname (pre @ n @ sl)
          = ext_result (pre @ n @ sl) (shift_result (length pre) (sd, 0, Some (length n), pds))"
      by (simp only: extname_ext_run)
    also have "\<dots> = ext_result n (sd, 0, Some (length n), pds)"
      using slice_shift[of pre n sl] ln
      by (cases sd) (auto simp: ext_result_def shift_result_def)
    finally show ?thesis by (simp add: n)
  qed
qed

lemma extname_all_slashes: "all_slashes p \<Longrightarrow> extname p = []"
proof -
  assume "all_slashes p"
  then have "all_slashes (rev p)" by (simp add: all_slashes_def)
  from ext_run_skip[OF this, of "[]" 0 0] show ?thesis
    by (simp add: extname_ext_run ext_run_def ext_result_def)
qed

lemma extname_basename: "extname p = extname (basename p)"
proof -
  consider (a) "all_slashes p"
    | (b) pre n sl where "p = pre @ n @ sl" "slash_free n" "n \<noteq> []"
        "pre = [] \<or> last pre = CHR ''/''" "all_slashes sl"
    using path_decomp[of p] by blast
  then show ?thesis
  proof cases
    case a
    then show ?thesis
      using extname_all_slashes[OF a] basename_all_slashes[OF a] extname_all_slashes[of "[]"]
      by (simp add: all_slashes_def)
  next
    case b
    then show ?thesis
      using extname_decomp[OF b(2-5)] basename_decomp[OF b(2-5)] by simp
  qed
qed

lemma extname_path_join:
  assumes "slash_free n" "n \<noteq> []" shows "extname (path_join d n) = extname n"
  using extname_basename[of "path_join d n"] basename_path_join[OF assms] by simp

section \<open>Facts about the walkers\<close>

lemma andThen_Fulfilled: "andThen (as, Fulfilled) k = (as @ fst k, snd k)"
  by (simp add: andThen_def)

lemma andThen_Rejected: "andThen (as, Rejected) k = (as, Rejected)"
  by (simp add: andThen_def)

lemma andThen_Crashed: "andThen (as, Crashed) k = (as, Crashed)"
  by (simp add: andThen_def)

lemma andThen_done: "andThen p ([], Fulfilled) = p"
  by (cases p; cases "snd p") (auto simp: andThen_def)

lemma andThen_Mkdirp:
  "andThen (andThen ([Mkdirp d], Fulfilled) p) k = andThen (Mkdirp d # fst p, snd p) k"
  by (simp add: andThen_Fulfilled)

lemma andThen_mem:
  "a \<in> set (fst (andThen p k)) \<Longrightarrow> a \<in> set (fst p) \<or> a \<in> set (fst k)"
  by (cases p; cases "snd p") (auto simp: andThen_def)

lemma andThen_all:
  "\<forall>a \<in> set (fst p). P a \<Longrightarrow> \<forall>a \<in> set (fst k). P a \<Longrightarrow> \<forall>a \<in> set (fst (andThen p k)). P a"
  using andThen_mem by blast

lemma snd_catch_p: "snd (catch_p p h) \<noteq> Rejected"
  by (cases p; cases "snd p") (auto simp: catch_p_def)

lemma optimizeImage_Fulfilled:
  "optimizeImage pipeline info filePath outputFilePath
     = (fst (optimizeImage pipeline info filePath outputFilePath), Fulfilled)"
  by (simp add: optimizeImage_def catch_p_def split: option.split)

lemma walk_Dir:
  "optimizeAndBlurImages cfg source target applyBlur parentBlurAllowed (Dir fname sub # rest) =
     (if startsWith_dot fname
      then optimizeAndBlurImages cfg source target applyBlur parentBlurAllowed rest
      else if \<not> shouldProcessFolder cfg (path_join source fname) then
        andThen
          (Mkdirp (path_join target fname)
             # copyFolderContentsDirectly (path_join source fname) (path_join target fname) sub,
           Fulfilled)
          (optimizeAndBlurImages cfg source target applyBlur parentBlurAllowed rest)
      else
        andThen
          (Mkdirp (path_join target fname)
             # fst (optimizeAndBlurImages cfg (path_join source fname) (path_join target fname)
                      applyBlur
                      (applyBlur \<and> parentBlurAllowed
                         \<and> shouldBlurFolder cfg (path_join source fname))
                      sub),
           snd (optimizeAndBlurImages cfg (path_join source fname) (path_join target fname)
                  applyBlur
                  (applyBlur \<and> parentBlurAllowed \<and> shouldBlurFolder cfg (path_join source fname))
                  sub))
          (optimizeAndBlurImages cfg source target applyBlur parentBlurAllowed rest))"
  by (simp add: Let_def andThen_Mkdirp)

lemma walk_File:
  "optimizeAndBlurImages cfg source target applyBlur parentBlurAllowed (File fname info # rest) =
     (if startsWith_dot fname \<or> \<not> shouldProcessFile cfg (path_join source fname)
      then optimizeAndBlurImages cfg source target applyBlur parentBlurAllowed rest
      else
        andThen
          (file_promise cfg (applyBlur \<and> parentBlurAllowed) info
             (path_join source fname) (path_join target fname))
          (optimizeAndBlurImages cfg source target applyBlur parentBlurAllowed rest))"
  by (simp add: Let_def file_promise_def)

declare optimizeAndBlurImages.simps(2,3) [simp del]

lemma optimizeImage_actions:
  "a \<in> set (fst (optimizeImage pipeline info filePath outputFilePath)) \<Longrightarrow>
     a = ConsoleError (ErrorProcessing filePath) \<or> (\<exists>w. a = SharpToFile (pipeline w) outputFilePath)"
  by (auto simp: optimizeImage_def catch_p_def split: option.splits if_splits)

lemma processVideo_actions:
  "a \<in> set (fst (processVideo cfg info inputPath outputPath)) \<Longrightarrow> \<not> uses_sharp a"
  by (auto simp: processVideo_def uses_sharp_def Let_def
      split: ffprobe_result.splits option.splits if_splits)

lemma copy_actions:
  "a \<in> set (copyFolderContentsDirectly source target entries) \<Longrightarrow> \<not> transforms a"
  by (induction source target entries rule: copyFolderContentsDirectly.induct)
     (auto simp: Let_def transforms_def split: if_splits)

lemma blurs_uses_sharp: "blurs a \<Longrightarrow> uses_sharp a"
  by (cases a) (simp_all add: blurs_def uses_sharp_def)

lemma uses_sharp_transforms: "uses_sharp a \<Longrightarrow> transforms a"
  by (cases a) (simp_all add: transforms_def uses_sharp_def)

lemma entries_induct [case_names Nil Dir File]:
  assumes "P []"
    and "\<And>n sub rest. P sub \<Longrightarrow> P rest \<Longrightarrow> P (Dir n sub # rest)"
    and "\<And>n info rest. P rest \<Longrightarrow> P (File n info # rest)"
  shows "P (entries :: entry list)"
proof (induction entries rule: measure_induct_rule[of "size_list size"])
  case (less es)
  show ?case
  proof (cases es)
    case Nil
    then show ?thesis using assms(1) by simp
  next
    case (Cons e rest)
    have rest: "P rest" using less[of rest] by (simp add: Cons)
    show ?thesis
    proof (cases e)
      case (File n info)
      then show ?thesis using assms(3)[OF rest] by (simp add: Cons)
    next
      case (Dir n sub)
      have "P sub" using less[of sub] by (simp add: Cons Dir)
      then show ?thesis using assms(2)[OF _ rest] by (simp add: Cons Dir)
    qed
  qed
qed

lemma file_promise_no_blur:
  assumes "\<not> blurHere" "a \<in> set (fst (file_promise cfg blurHere info filePath outputFilePath))"
  shows "\<not> blurs a"
proof (cases "getFileType cfg filePath = Processable")
  case True
  with assms(2) have "a = ConsoleError (ErrorProcessing filePath) \<or>
      (\<exists>w. a = SharpToFile (sharpInstance cfg filePath w (blurHere \<and> shouldBlurFile cfg filePath))
                outputFilePath)"
    using optimizeImage_actions by (simp add: file_promise_def)
  then show ?thesis using assms(1) by (auto simp: blurs_def sharpInstance_def)
next
  case False
  note np = this
  show ?thesis
  proof (cases "getFileType cfg filePath = Video")
    case True
    with np assms(2) have "\<not> uses_sharp a"
      using processVideo_actions by (simp add: file_promise_def)
    then show ?thesis using blurs_uses_sharp by blast
  next
    case False
    with np assms(2) show ?thesis by (simp add: file_promise_def blurs_def)
  qed
qed

lemma copy_no_blur:
  "a \<in> set (copyFolderContentsDirectly source target entries) \<Longrightarrow> \<not> blurs a"
  using copy_actions blurs_uses_sharp uses_sharp_transforms by blast

lemma blurs_simps:
  "\<not> blurs (Mkdirp p)" "\<not> blurs (CopyFile p q)" "\<not> blurs (ConsoleError m)"
  "\<not> blurs (FfmpegEnd c)" "\<not> blurs (FfmpegError c)"
  "blurs (SharpToFile inst out) = (blur_sigma inst \<noteq> None)"
  by (simp_all add: blurs_def)

lemma walk_no_blur:
  "\<not> (applyBlur \<and> parentBlurAllowed) \<Longrightarrow>
     \<forall>a \<in> set (fst (optimizeAndBlurImages cfg source target applyBlur parentBlurAllowed entries)).
       \<not> blurs a"
proof (induction entries arbitrary: source target parentBlurAllowed rule: entries_induct)
  case Nil
  then show ?case by simp
next
  case (Dir n sub rest)
  have rest: "\<forall>a \<in> set (fst (optimizeAndBlurImages cfg source target applyBlur
                parentBlurAllowed rest)). \<not> blurs a"
    using Dir.IH(2)[OF Dir.prems] .
  have "\<not> (applyBlur \<and> (applyBlur \<and> parentBlurAllowed \<and> shouldBlurFolder cfg (path_join source n)))"
    using Dir.prems by blast
  from Dir.IH(1)[OF this]
  have sub: "\<forall>a \<in> set (fst (optimizeAndBlurImages cfg (path_join source n) (path_join target n)
                applyBlur (applyBlur \<and> parentBlurAllowed \<and> shouldBlurFolder cfg (path_join source n))
                sub)). \<not> blurs a" .
  have copy: "\<forall>a \<in> set (copyFolderContentsDirectly (path_join source n) (path_join target n) sub).
                \<not> blurs a"
    using copy_no_blur by blast
  have excluded: "\<forall>a \<in> set (fst (Mkdirp (path_join target n)
                # copyFolderContentsDirectly (path_join source n) (path_join target n) sub,
                Fulfilled)). \<not> blurs a"
    using copy by (simp add: blurs_simps)
  have processed: "\<forall>a \<in> set (fst (Mkdirp (path_join target n)
                # fst (optimizeAndBlurImages cfg (path_join source n) (path_join target n)
                         applyBlur
                         (applyBlur \<and> parentBlurAllowed \<and> shouldBlurFolder cfg (path_join source n))
                         sub),
                snd (optimizeAndBlurImages cfg (path_join source n) (path_join target n)
                       applyBlur
                       (applyBlur \<and> parentBlurAllowed \<and> shouldBlurFolder cfg (path_join source n))
                       sub))). \<not> blurs a"
    using sub by (simp add: blurs_simps)
  show ?case
    unfolding walk_Dir
    using rest andThen_all[OF excluded rest] andThen_all[OF processed rest] by simp
next
  case (File n info rest)
  have rest: "\<forall>a \<in> set (fst (optimizeAndBlurImages cfg source target applyBlur
                parentBlurAllowed rest)). \<not> blurs a"
    using File.IH[OF File.prems] .
  have this_file: "\<forall>a \<in> set (fst (file_promise cfg (applyBlur \<and> parentBlurAllowed) info
                (path_join source n) (path_join target n))). \<not> blurs a"
    using file_promise_no_blur[OF File.prems] by blast
  show ?case
    unfolding walk_File using rest andThen_all[OF this_file rest] by simp
qed

lemma basic_Dir:
  "optimizeAndBlurImages_basic cfg source target applyBlur parentBlurAllowed (Dir fname sub # rest) =
     (if startsWith_dot fname \<or> \<not> shouldProcessFolder cfg (path_join source fname) then []
      else
        Mkdirp (path_join target fname)
          # optimizeAndBlurImages_basic cfg (path_join source fname) (path_join target fname)
              applyBlur
              (applyBlur \<and> parentBlurAllowed \<and> shouldBlurFolder cfg (path_join source fname))
              sub)
     @ optimizeAndBlurImages_basic cfg source target applyBlur parentBlurAllowed rest"
  by (simp add: Let_def)

lemma basic_File:
  "optimizeAndBlurImages_basic cfg source target applyBlur parentBlurAllowed (File fname info # rest) =
     (if startsWith_dot fname \<or> \<not> shouldProcessFile cfg (path_join source fname) then []
      else file_actions_basic cfg (applyBlur \<and> parentBlurAllowed) info
             (path_join source fname) (path_join target fname))
     @ optimizeAndBlurImages_basic cfg source target applyBlur parentBlurAllowed rest"
  by (simp add: Let_def file_actions_basic_def)

declare optimizeAndBlurImages_basic.simps(2,3) [simp del]

lemma file_actions_basic_no_blur:
  assumes "\<not> blurHere" "a \<in> set (file_actions_basic cfg blurHere info filePath outputFilePath)"
  shows "\<not> blurs a"
proof (cases "getFileType_basic cfg filePath = Processable")
  case True
  with assms(2) have "a = ConsoleError (ErrorProcessing filePath) \<or>
      (\<exists>w. a = SharpToFile (sharpInstance_basic cfg filePath w (blurHere \<and> shouldBlurFile cfg filePath))
                outputFilePath)"
    using optimizeImage_actions by (simp add: file_actions_basic_def)
  then show ?thesis using assms(1) by (auto simp: blurs_def sharpInstance_basic_def)
next
  case False
  with assms(2) show ?thesis by (simp add: file_actions_basic_def blurs_def)
qed

lemma basic_no_blur:
  "\<not> (applyBlur \<and> parentBlurAllowed) \<Longrightarrow>
     \<forall>a \<in> set (optimizeAndBlurImages_basic cfg source target applyBlur parentBlurAllowed entries).
       \<not> blurs a"
proof (induction entries arbitrary: source target parentBlurAllowed rule: entries_induct)
  case Nil
  then show ?case by simp
next
  case (Dir n sub rest)
  have rest: "\<forall>a \<in> set (optimizeAndBlurImages_basic cfg source target applyBlur
                parentBlurAllowed rest). \<not> blurs a"
    using Dir.IH(2)[OF Dir.prems] .
  have "\<not> (applyBlur \<and> (applyBlur \<and> parentBlurAllowed \<and> shouldBlurFolder cfg (path_join source n)))"
    using Dir.prems by blast
  from Dir.IH(1)[OF this]
  have sub: "\<forall>a \<in> set (optimizeAndBlurImages_basic cfg (path_join source n) (path_join target n)
                applyBlur (applyBlur \<and> parentBlurAllowed \<and> shouldBlurFolder cfg (path_join source n))
                sub). \<not> blurs a" .
  show ?case unfolding basic_Dir using rest sub by (auto simp: blurs_simps)
next
  case (File n info rest)
  have rest: "\<forall>a \<in> set (optimizeAndBlurImages_basic cfg source target applyBlur
                parentBlurAllowed rest). \<not> blurs a"
    using File.IH[OF File.prems] .
  have this_file: "\<forall>a \<in> set (file_actions_basic cfg (applyBlur \<and> parentBlurAllowed) info
                (path_join source n) (path_join target n)). \<not> blurs a"
    using file_actions_basic_no_blur[OF File.prems] by blast
  show ?case unfolding basic_File using rest this_file by auto
qed






text \<open>The raw copy reaches every visible file.\<close>

lemma copy_File_mem:
  "File n info \<in> set entries \<Longrightarrow> \<not> startsWith_dot n \<Longrightarrow>
     CopyFile (path_join source n) (path_join target n)
       \<in> set (copyFolderContentsDirectly source target entries)"
  by (induction entries rule: entries_induct) (auto simp: Let_def)

lemma copy_Dir_mem:
  "Dir n sub \<in> set entries \<Longrightarrow> \<not> startsWith_dot n \<Longrightarrow>
     set (Mkdirp (path_join target n)
          # copyFolderContentsDirectly (path_join source n) (path_join target n) sub)
       \<subseteq> set (copyFolderContentsDirectly source target entries)"
  by (induction entries rule: entries_induct) (auto simp: Let_def)

lemma joins_Cons: "joins p (n # names) = joins (path_join p n) names"
  by (simp add: joins_def)

lemma copy_visible_file:
  "visible_file entries names \<Longrightarrow>
     CopyFile (joins source names) (joins target names)
       \<in> set (copyFolderContentsDirectly source target entries)"
proof (induction arbitrary: source target rule: visible_file.induct)
  case (here n info entries)
  then show ?case using copy_File_mem by (simp add: joins_def)
next
  case (below n sub entries names)
  from below.IH[of "path_join source n" "path_join target n"]
  show ?case using copy_Dir_mem[OF below.hyps(1,2), of target source]
    by (auto simp: joins_Cons)
qed


text \<open>As long as the copy returns, a video is transcoded or copied, and the promise is fulfilled.\<close>

lemma processVideo_copy_returns:
  assumes "copy_ok info"
  shows "snd (processVideo cfg info inputPath outputPath) = Fulfilled"
    and "CopyFile inputPath outputPath \<in> set (fst (processVideo cfg info inputPath outputPath))
         \<or> (\<exists>c. fst (processVideo cfg info inputPath outputPath) = [FfmpegEnd c])"
  using assms
  by (auto simp: processVideo_def Let_def split: ffprobe_result.split option.split)

section \<open>The rule resolver: properties\<close>

text \<open>
  C4. For every folder name \<open>N\<close> (a directory entry name: not empty, no separator) and
  every configuration: when \<open>folders.include\<close> is present and not empty,
  \<open>shouldProcessFolder\<close> holds exactly when \<open>N\<close> is in the include list; otherwise
  (the list is absent or empty) it holds exactly when \<open>N\<close> is not in the exclude list.
  The walkers call the predicate with \<open>path.join(source, N)\<close>; the answer is the same
  as for \<open>N\<close> itself.
\<close>

theorem shouldProcessFolder_by_name:
  assumes "valid_name N"
  shows "shouldProcessFolder cfg (path_join dir N) =
           (case include_list (folders cfg) of
              Some (x # xs) \<Rightarrow> N \<in> set (x # xs)
            | _ \<Rightarrow> N \<notin> set (exclude_list (folders cfg)))
         \<and> shouldProcessFolder cfg N = shouldProcessFolder cfg (path_join dir N)"
proof -
  from assms have n: "slash_free N" "N \<noteq> []" by (simp_all add: valid_name_def)
  have b: "basename (path_join dir N) = N" "basename N = N"
    using basename_path_join[OF n] basename_name[OF n] by simp_all
  show ?thesis
    by (simp add: shouldProcessFolder_def b includes_str_def has_items_def
        split: option.split list.split)
qed

text \<open>An excluded and an allowed folder of the example; an include list overrides the exclude list.\<close>

theorem shouldProcessFolder_by_name_witness:
  "valid_name ''raw'' \<and> valid_name ''web''
   \<and> \<not> shouldProcessFolder example_config (path_join ''/site/assets'' ''raw'')
   \<and> shouldProcessFolder example_config (path_join ''/site/assets'' ''web'')
   \<and> shouldProcessFolder
        (example_config\<lparr>folders := \<lparr>include_list = Some [''raw''], exclude_list = [''raw'']\<rparr>\<rparr>)
        (path_join ''/site/assets'' ''raw'')"
  using shouldProcessFolder_by_name[of "''raw''" example_config "''/site/assets''"]
    shouldProcessFolder_by_name[of "''web''" example_config "''/site/assets''"]
    shouldProcessFolder_by_name[of "''raw''"
      "example_config\<lparr>folders := \<lparr>include_list = Some [''raw''], exclude_list = [''raw'']\<rparr>\<rparr>"
      "''/site/assets''"]
  by (simp add: valid_name_def slash_free_def example_config_def)

text \<open>
  C5. For every file name \<open>N\<close>: when \<open>N\<close> is in \<open>files.exclude\<close>, or the lower-cased
  extension of \<open>N\<close> is in \<open>extensions.exclude\<close>, \<open>shouldProcessFile\<close> is false,
  whether or not \<open>N\<close> is in the include list; when neither exclusion applies, a
  non-empty include list is an allow-list, and with an empty or absent include list the
  file is processable.
\<close>

theorem shouldProcessFile_exclusion_first:
  assumes "valid_name N"
  shows "shouldProcessFile cfg (path_join dir N) =
           (if N \<in> set (exclude_list (files cfg))
               \<or> toLowerCase (extname N) \<in> set (exclude_ext (extensions cfg))
            then False
            else (case include_list (files cfg) of
                    Some (x # xs) \<Rightarrow> N \<in> set (x # xs)
                  | _ \<Rightarrow> True))"
proof -
  from assms have n: "slash_free N" "N \<noteq> []" by (simp_all add: valid_name_def)
  have b: "basename (path_join dir N) = N" "extname (path_join dir N) = extname N"
    using basename_path_join[OF n] extname_path_join[OF n] by simp_all
  show ?thesis
    by (simp add: shouldProcessFile_def b includes_str_def has_items_def Let_def
        split: option.split list.split)
qed

text \<open>A file named in the include list whose extension is excluded is not processed.\<close>

theorem shouldProcessFile_exclusion_first_witness:
  "valid_name ''cache.TMP''
   \<and> ''cache.TMP'' \<in> set (the (include_list (files (example_config
          \<lparr>files := \<lparr>include_list = Some [''cache.TMP''], exclude_list = []\<rparr>\<rparr>))))
   \<and> \<not> shouldProcessFile
        (example_config\<lparr>files := \<lparr>include_list = Some [''cache.TMP''], exclude_list = []\<rparr>\<rparr>)
        (path_join ''/site/assets'' ''cache.TMP'')"
proof -
  have v: "valid_name ''cache.TMP''" by (simp add: valid_name_def slash_free_def)
  have e: "toLowerCase (extname ''cache.TMP'') = ''.tmp''" by code_simp
  show ?thesis
    using shouldProcessFile_exclusion_first[OF v,
        of "example_config\<lparr>files := \<lparr>include_list = Some [''cache.TMP''], exclude_list = []\<rparr>\<rparr>"
          "''/site/assets''"] v e
    by (simp add: example_config_def)
qed

text \<open>
  C9. Each of the four predicates depends only on the basename of its path argument: for
  a fixed configuration and two paths with the same basename, each predicate gives the
  same answer for both. (\<open>shouldProcessFile\<close> also reads \<open>path.extname\<close> of the path,
  which is the extension of the basename.)
\<close>

theorem predicates_depend_on_basename:
  assumes "basename p = basename q"
  shows "shouldProcessFolder cfg p = shouldProcessFolder cfg q
         \<and> shouldProcessFile cfg p = shouldProcessFile cfg q
         \<and> shouldBlurFolder cfg p = shouldBlurFolder cfg q
         \<and> shouldBlurFile cfg p = shouldBlurFile cfg q"
proof -
  have "extname p = extname q"
    using extname_basename[of p] extname_basename[of q] assms by simp
  with assms show ?thesis
    by (simp add: shouldProcessFolder_def shouldProcessFile_def shouldBlurFolder_def
        shouldBlurFile_def)
qed

text \<open>Two paths with different directory prefixes and the same basename.\<close>

theorem predicates_depend_on_basename_witness:
  "basename ''/site/assets/team/ceo.JPG'' = basename ''elsewhere//ceo.JPG/''
   \<and> shouldProcessFile example_config ''/site/assets/team/ceo.JPG''
       = shouldProcessFile example_config ''elsewhere//ceo.JPG/''
   \<and> shouldBlurFolder example_config ''/site/assets/team'' = shouldBlurFolder example_config ''team''
   \<and> \<not> shouldBlurFolder example_config ''team''"
proof -
  have 1: "basename ''/site/assets/team/ceo.JPG'' = basename ''elsewhere//ceo.JPG/''"
    by (simp add: basename_def slice_def)
  have 2: "basename ''/site/assets/team'' = basename ''team''"
    by (simp add: basename_def slice_def)
  have 3: "\<not> shouldBlurFolder example_config ''team''"
    by (simp add: shouldBlurFolder_def basename_def slice_def example_config_def
        has_items_def includes_str_def)
  show ?thesis
    using predicates_depend_on_basename[OF 1, of example_config]
      predicates_depend_on_basename[OF 2, of example_config] 1 3
    by simp
qed

section \<open>The tree walkers: properties\<close>

text \<open>
  C1 (as amended). In the walker of the script with video support, for every directory
  entry that is not hidden and whose path fails \<open>shouldProcessFolder\<close>: the walk makes
  the mirrored output directory and then copies the subtree raw
  (\<open>copyFolderContentsDirectly\<close>, which consults no rule of the configuration); no
  action of that copy is a sharp or ffmpeg action, and every file of the subtree that is
  reached through names not starting with a dot is copied to the mirrored path; the walk
  then goes on with the remaining entries. The walker of \<open>optimize.js\<close> skips such a
  directory: it contributes nothing to the output.
\<close>

theorem excluded_folder_raw_copy:
  assumes "\<not> startsWith_dot fname"
    and "\<not> shouldProcessFolder cfg (path_join source fname)"
  shows "optimizeAndBlurImages cfg source target applyBlur parentBlurAllowed (Dir fname sub # rest)
           = (Mkdirp (path_join target fname)
                # copyFolderContentsDirectly (path_join source fname) (path_join target fname) sub
                @ fst (optimizeAndBlurImages cfg source target applyBlur parentBlurAllowed rest),
              snd (optimizeAndBlurImages cfg source target applyBlur parentBlurAllowed rest))
         \<and> (\<forall>a \<in> set (copyFolderContentsDirectly (path_join source fname)
                         (path_join target fname) sub). \<not> transforms a)
         \<and> (\<forall>names. visible_file sub names \<longrightarrow>
               CopyFile (joins (path_join source fname) names) (joins (path_join target fname) names)
                 \<in> set (copyFolderContentsDirectly (path_join source fname)
                          (path_join target fname) sub))
         \<and> optimizeAndBlurImages_basic cfg source target applyBlur parentBlurAllowed
              (Dir fname sub # rest)
           = optimizeAndBlurImages_basic cfg source target applyBlur parentBlurAllowed rest"
proof -
  have 1: "optimizeAndBlurImages cfg source target applyBlur parentBlurAllowed (Dir fname sub # rest)
           = (Mkdirp (path_join target fname)
                # copyFolderContentsDirectly (path_join source fname) (path_join target fname) sub
                @ fst (optimizeAndBlurImages cfg source target applyBlur parentBlurAllowed rest),
              snd (optimizeAndBlurImages cfg source target applyBlur parentBlurAllowed rest))"
    unfolding walk_Dir using assms by (simp add: andThen_Fulfilled)
  have 2: "\<forall>a \<in> set (copyFolderContentsDirectly (path_join source fname)
                         (path_join target fname) sub). \<not> transforms a"
    using copy_actions by blast
  have 3: "\<forall>names. visible_file sub names \<longrightarrow>
               CopyFile (joins (path_join source fname) names) (joins (path_join target fname) names)
                 \<in> set (copyFolderContentsDirectly (path_join source fname)
                          (path_join target fname) sub)"
    using copy_visible_file by blast
  have 4: "optimizeAndBlurImages_basic cfg source target applyBlur parentBlurAllowed
              (Dir fname sub # rest)
           = optimizeAndBlurImages_basic cfg source target applyBlur parentBlurAllowed rest"
    unfolding basic_Dir using assms by simp
  show ?thesis using 1 2 3 4 by blast
qed

text \<open>The excluded folder \<open>raw\<close> of the example, under the walker with video support.\<close>

theorem excluded_folder_raw_copy_witness:
  "\<not> startsWith_dot ''raw''
   \<and> \<not> shouldProcessFolder example_config (path_join ''/site/assets'' ''raw'')
   \<and> visible_file [File ''photo.jpg'' (image_file 4000)] [''photo.jpg'']
   \<and> optimizeAndBlurImages example_config ''/site/assets'' ''/site/dist/assets'' True True
        [Dir ''raw'' [File ''photo.jpg'' (image_file 4000)]]
      = ([Mkdirp ''/site/dist/assets/raw'',
          CopyFile ''/site/assets/raw/photo.jpg'' ''/site/dist/assets/raw/photo.jpg''], Fulfilled)
   \<and> CopyFile (joins (path_join ''/site/assets'' ''raw'') [''photo.jpg''])
               (joins (path_join ''/site/dist/assets'' ''raw'') [''photo.jpg''])
        \<in> set (copyFolderContentsDirectly (path_join ''/site/assets'' ''raw'')
                 (path_join ''/site/dist/assets'' ''raw'') [File ''photo.jpg'' (image_file 4000)])"
proof -
  have h: "\<not> startsWith_dot ''raw''" by (simp add: startsWith_dot_def)
  have x: "\<not> shouldProcessFolder example_config (path_join ''/site/assets'' ''raw'')"
    by code_simp
  have v: "visible_file [File ''photo.jpg'' (image_file 4000)] [''photo.jpg'']"
    by (rule visible_file.here[of _ "image_file 4000"]) (simp_all add: startsWith_dot_def)
  have c: "copyFolderContentsDirectly (path_join ''/site/assets'' ''raw'')
             (path_join ''/site/dist/assets'' ''raw'') [File ''photo.jpg'' (image_file 4000)]
           = [CopyFile ''/site/assets/raw/photo.jpg'' ''/site/dist/assets/raw/photo.jpg'']"
    by code_simp
  have j: "path_join ''/site/dist/assets'' ''raw'' = ''/site/dist/assets/raw''"
    by (simp add: path_join_def)
  show ?thesis
    using excluded_folder_raw_copy[OF h x, of "''/site/dist/assets''" True True
        "[File ''photo.jpg'' (image_file 4000)]" "[]"] h x v c j
    by simp
qed

text \<open>
  C1 as stated fails for the walker of \<open>optimize.js\<close>: the excluded folder \<open>raw\<close> with a
  visible file yields no output directory and no copy.
\<close>

theorem excluded_folder_skipped_by_optimize_js:
  "\<not> startsWith_dot ''raw''
   \<and> \<not> shouldProcessFolder example_config (path_join ''/site/assets'' ''raw'')
   \<and> visible_file [File ''photo.jpg'' (image_file 4000)] [''photo.jpg'']
   \<and> optimizeAndBlurImages_basic example_config ''/site/assets'' ''/site/dist/assets'' False True
        [Dir ''raw'' [File ''photo.jpg'' (image_file 4000)]] = []"
proof -
  have h: "\<not> startsWith_dot ''raw''" by (simp add: startsWith_dot_def)
  have x: "\<not> shouldProcessFolder example_config (path_join ''/site/assets'' ''raw'')"
    by code_simp
  have v: "visible_file [File ''photo.jpg'' (image_file 4000)] [''photo.jpg'']"
    by (rule visible_file.here[of _ "image_file 4000"]) (simp_all add: startsWith_dot_def)
  have b: "optimizeAndBlurImages_basic example_config ''/site/assets'' ''/site/dist/assets'' False True
        [Dir ''raw'' [File ''photo.jpg'' (image_file 4000)]] = []"
    by code_simp
  show ?thesis using h x v b by simp
qed

text \<open>
  C2 (as amended). For a file classified processable whose metadata sharp reads and whose
  output it writes, the walker of the script with video support resizes to
  \<open>image.maxWidth\<close> exactly when \<open>image.enableResize\<close> is true and the width is at least
  \<open>image.maxWidth\<close> (the threshold is inclusive), and keeps the dimensions otherwise. The
  walker of \<open>optimize.js\<close> does not consult \<open>image.enableResize\<close>: it resizes exactly
  when the width is at least \<open>image.maxWidth\<close>.
\<close>

theorem image_resize_rule:
  assumes "\<not> startsWith_dot fname"
    and "shouldProcessFile cfg (path_join source fname)"
    and "sharp_metadata info = Some w"
    and "sharp_toFile_ok info"
  shows "(getFileType cfg (path_join source fname) = Processable \<longrightarrow>
            optimizeAndBlurImages cfg source target applyBlur parentBlurAllowed (File fname info # rest)
              = (SharpToFile
                   (sharpInstance cfg (path_join source fname) w
                      (applyBlur \<and> parentBlurAllowed \<and> shouldBlurFile cfg (path_join source fname)))
                   (path_join target fname)
                 # fst (optimizeAndBlurImages cfg source target applyBlur parentBlurAllowed rest),
                 snd (optimizeAndBlurImages cfg source target applyBlur parentBlurAllowed rest)))
         \<and> resize_width (sharpInstance cfg p v b)
             = (if enableResize (image_cfg cfg) \<and> maxWidth (image_cfg cfg) \<le> v
                then Some (maxWidth (image_cfg cfg)) else None)
         \<and> (getFileType_basic cfg (path_join source fname) = Processable \<longrightarrow>
            optimizeAndBlurImages_basic cfg source target applyBlur parentBlurAllowed
                (File fname info # rest)
              = SharpToFile
                  (sharpInstance_basic cfg (path_join source fname) w
                     (applyBlur \<and> parentBlurAllowed \<and> shouldBlurFile cfg (path_join source fname)))
                  (path_join target fname)
                # optimizeAndBlurImages_basic cfg source target applyBlur parentBlurAllowed rest)
         \<and> resize_width (sharpInstance_basic cfg p v b)
             = (if maxWidth (image_cfg cfg) \<le> v then Some (maxWidth (image_cfg cfg)) else None)"
proof -
  have img: "\<And>pl fp out. optimizeImage pl info fp out = ([SharpToFile (pl w) out], Fulfilled)"
    using assms(3,4) by (simp add: optimizeImage_def catch_p_def)
  have 1: "getFileType cfg (path_join source fname) = Processable \<longrightarrow>
            optimizeAndBlurImages cfg source target applyBlur parentBlurAllowed (File fname info # rest)
              = (SharpToFile
                   (sharpInstance cfg (path_join source fname) w
                      (applyBlur \<and> parentBlurAllowed \<and> shouldBlurFile cfg (path_join source fname)))
                   (path_join target fname)
                 # fst (optimizeAndBlurImages cfg source target applyBlur parentBlurAllowed rest),
                 snd (optimizeAndBlurImages cfg source target applyBlur parentBlurAllowed rest))"
    unfolding walk_File using assms(1,2) by (simp add: file_promise_def img andThen_Fulfilled)
  have 2: "getFileType_basic cfg (path_join source fname) = Processable \<longrightarrow>
            optimizeAndBlurImages_basic cfg source target applyBlur parentBlurAllowed
                (File fname info # rest)
              = SharpToFile
                  (sharpInstance_basic cfg (path_join source fname) w
                     (applyBlur \<and> parentBlurAllowed \<and> shouldBlurFile cfg (path_join source fname)))
                  (path_join target fname)
                # optimizeAndBlurImages_basic cfg source target applyBlur parentBlurAllowed rest"
    unfolding basic_File using assms(1,2) by (simp add: file_actions_basic_def img)
  show ?thesis using 1 2 by (simp add: sharpInstance_def sharpInstance_basic_def)
qed

text \<open>An image whose width equals the maximum is resized; one pixel less is not.\<close>

theorem image_resize_rule_witness:
  "\<not> startsWith_dot ''edge.jpg''
   \<and> shouldProcessFile resizing_config (path_join ''/site/assets'' ''edge.jpg'')
   \<and> sharp_metadata (image_file 800) = Some 800
   \<and> sharp_toFile_ok (image_file 800)
   \<and> getFileType resizing_config (path_join ''/site/assets'' ''edge.jpg'') = Processable
   \<and> maxWidth (image_cfg resizing_config) = 800
   \<and> optimizeAndBlurImages resizing_config ''/site/assets'' ''/site/dist/assets'' False True
        [File ''edge.jpg'' (image_file 800)]
      = ([SharpToFile
            \<lparr>sharp_input = ''/site/assets/edge.jpg'', resize_width = Some 800, blur_sigma = None,
               jpeg_quality = 80, png_compressionLevel = 9, webp_quality = 80\<rparr>
            ''/site/dist/assets/edge.jpg''], Fulfilled)
   \<and> resize_width (sharpInstance resizing_config ''/site/assets/small.jpg'' 799 False) = None"
proof -
  have h: "\<not> startsWith_dot ''edge.jpg''" by (simp add: startsWith_dot_def)
  have p: "shouldProcessFile resizing_config (path_join ''/site/assets'' ''edge.jpg'')"
    by code_simp
  have m: "sharp_metadata (image_file 800) = Some 800" "sharp_toFile_ok (image_file 800)"
    by (simp_all add: image_file_def)
  have t: "getFileType resizing_config (path_join ''/site/assets'' ''edge.jpg'') = Processable"
    by code_simp
  have w: "maxWidth (image_cfg resizing_config) = 800" "enableResize (image_cfg resizing_config)"
    by (simp_all add: resizing_config_def)
  have i: "sharpInstance resizing_config (path_join ''/site/assets'' ''edge.jpg'') 800
             (False \<and> True \<and> shouldBlurFile resizing_config (path_join ''/site/assets'' ''edge.jpg''))
           = \<lparr>sharp_input = ''/site/assets/edge.jpg'', resize_width = Some 800, blur_sigma = None,
               jpeg_quality = 80, png_compressionLevel = 9, webp_quality = 80\<rparr>"
    by code_simp
  have j: "path_join ''/site/dist/assets'' ''edge.jpg'' = ''/site/dist/assets/edge.jpg''"
    by (simp add: path_join_def)
  show ?thesis
    using image_resize_rule[OF h p m, where target = "''/site/dist/assets''"
        and applyBlur = False and parentBlurAllowed = True and rest = "[]"
        and p = "''/site/assets/small.jpg''" and v = 799 and b = False] h p m t w i j
    by simp
qed

text \<open>
  C2 as stated fails for the walker of \<open>optimize.js\<close>: with \<open>enableResize\<close> false it
  still resizes an image of width 4000 to 700.
\<close>

theorem optimize_js_resizes_without_enableResize:
  "\<not> enableResize (image_cfg example_config)
   \<and> getFileType_basic example_config (path_join ''/site/assets'' ''photo.jpg'') = Processable
   \<and> optimizeAndBlurImages_basic example_config ''/site/assets'' ''/site/dist/assets'' False True
        [File ''photo.jpg'' (image_file 4000)]
      = [SharpToFile
           \<lparr>sharp_input = ''/site/assets/photo.jpg'', resize_width = Some 700, blur_sigma = None,
              jpeg_quality = 80, png_compressionLevel = 9, webp_quality = 80\<rparr>
           ''/site/dist/assets/photo.jpg'']"
proof -
  have e: "\<not> enableResize (image_cfg example_config)" by (simp add: example_config_def)
  have t: "getFileType_basic example_config (path_join ''/site/assets'' ''photo.jpg'') = Processable"
    by code_simp
  have b: "optimizeAndBlurImages_basic example_config ''/site/assets'' ''/site/dist/assets'' False True
        [File ''photo.jpg'' (image_file 4000)]
      = [SharpToFile
           \<lparr>sharp_input = ''/site/assets/photo.jpg'', resize_width = Some 700, blur_sigma = None,
              jpeg_quality = 80, png_compressionLevel = 9, webp_quality = 80\<rparr>
           ''/site/dist/assets/photo.jpg'']"
    by code_simp
  show ?thesis using e t b by simp
qed

text \<open>
  C3. Blur propagation: in both walkers the blur-enabled value passed to the recursive
  call for a processed directory is \<open>applyBlur \<and> parentBlurAllowed \<and> shouldBlurFolder\<close>
  of that directory (the async walker awaits that call and then goes on with the
  remaining entries); and when that value is false (no \<open>--blur\<close>, or an ancestor already
  disallowed, or this folder's blur rule is false), no action in the whole subtree of the
  directory blurs, whatever the blur rules of the folders and files below say.
\<close>

theorem blur_propagation:
  "(\<not> startsWith_dot fname \<and> shouldProcessFolder cfg (path_join source fname) \<longrightarrow>
      optimizeAndBlurImages cfg source target applyBlur parentBlurAllowed (Dir fname sub # rest)
        = andThen
            (Mkdirp (path_join target fname)
               # fst (optimizeAndBlurImages cfg (path_join source fname) (path_join target fname)
                        applyBlur
                        (applyBlur \<and> parentBlurAllowed
                           \<and> shouldBlurFolder cfg (path_join source fname))
                        sub),
             snd (optimizeAndBlurImages cfg (path_join source fname) (path_join target fname)
                    applyBlur
                    (applyBlur \<and> parentBlurAllowed
                       \<and> shouldBlurFolder cfg (path_join source fname))
                    sub))
            (optimizeAndBlurImages cfg source target applyBlur parentBlurAllowed rest)
      \<and> optimizeAndBlurImages_basic cfg source target applyBlur parentBlurAllowed
           (Dir fname sub # rest)
        = Mkdirp (path_join target fname)
            # optimizeAndBlurImages_basic cfg (path_join source fname) (path_join target fname)
                applyBlur
                (applyBlur \<and> parentBlurAllowed \<and> shouldBlurFolder cfg (path_join source fname))
                sub
            @ optimizeAndBlurImages_basic cfg source target applyBlur parentBlurAllowed rest)
   \<and> (\<not> (applyBlur \<and> parentBlurAllowed \<and> shouldBlurFolder cfg (path_join source fname)) \<longrightarrow>
        (\<forall>a \<in> set (fst (optimizeAndBlurImages cfg source target applyBlur parentBlurAllowed
                          [Dir fname sub])). \<not> blurs a)
        \<and> (\<forall>a \<in> set (optimizeAndBlurImages_basic cfg source target applyBlur parentBlurAllowed
                          [Dir fname sub]). \<not> blurs a))"
proof -
  let ?b = "applyBlur \<and> parentBlurAllowed \<and> shouldBlurFolder cfg (path_join source fname)"
  have sub: "\<not> ?b \<Longrightarrow>
      \<forall>a \<in> set (fst (optimizeAndBlurImages cfg (path_join source fname) (path_join target fname)
                       applyBlur ?b sub)). \<not> blurs a"
    using walk_no_blur[of applyBlur ?b] by blast
  have copy: "\<forall>a \<in> set (copyFolderContentsDirectly (path_join source fname)
                         (path_join target fname) sub). \<not> blurs a"
    using copy_no_blur by blast
  have 1: "\<not> ?b \<Longrightarrow>
      \<forall>a \<in> set (fst (optimizeAndBlurImages cfg source target applyBlur parentBlurAllowed
                       [Dir fname sub])). \<not> blurs a"
    using sub copy by (auto simp: walk_Dir andThen_done blurs_simps)
  have subb: "\<not> ?b \<Longrightarrow>
      \<forall>a \<in> set (optimizeAndBlurImages_basic cfg (path_join source fname) (path_join target fname)
                  applyBlur ?b sub). \<not> blurs a"
    using basic_no_blur[of applyBlur ?b] by blast
  have 2: "\<not> ?b \<Longrightarrow>
      \<forall>a \<in> set (optimizeAndBlurImages_basic cfg source target applyBlur parentBlurAllowed
                  [Dir fname sub]). \<not> blurs a"
    unfolding basic_Dir using subb by (auto simp: blurs_simps)
  show ?thesis using 1 2 by (simp add: walk_Dir basic_Dir)
qed

text \<open>
  The folder \<open>team\<close> is excluded from blur: under \<open>--blur\<close> nothing below it is blurred,
  although the rules of its subfolder and of the files allow blur.
\<close>

theorem blur_propagation_witness:
  "\<not> (True \<and> True \<and> shouldBlurFolder example_config (path_join ''/site/assets'' ''team''))
   \<and> shouldBlurFolder example_config ''/site/assets/team/sub''
   \<and> shouldBlurFile example_config ''/site/assets/team/sub/b.jpg''
   \<and> list_all (\<lambda>a. \<not> blurs a)
        (fst (optimizeAndBlurImages example_config ''/site/assets'' ''/site/dist/assets'' True True
                [Dir ''team'' [File ''ceo.jpg'' (image_file 100),
                               Dir ''sub'' [File ''b.jpg'' (image_file 100)]]]))
   \<and> list_all (\<lambda>a. \<not> blurs a)
        (optimizeAndBlurImages_basic example_config ''/site/assets'' ''/site/dist/assets'' True True
                [Dir ''team'' [File ''ceo.jpg'' (image_file 100),
                               Dir ''sub'' [File ''b.jpg'' (image_file 100)]]])"
proof -
  have f: "\<not> (True \<and> True \<and> shouldBlurFolder example_config (path_join ''/site/assets'' ''team''))"
    by code_simp
  have g: "shouldBlurFolder example_config ''/site/assets/team/sub''"
    "shouldBlurFile example_config ''/site/assets/team/sub/b.jpg''"
    by code_simp+
  show ?thesis
    using blur_propagation[where cfg = example_config and source = "''/site/assets''"
        and target = "''/site/dist/assets''" and applyBlur = True and parentBlurAllowed = True
        and fname = "''team''"
        and sub = "[File ''ceo.jpg'' (image_file 100), Dir ''sub'' [File ''b.jpg'' (image_file 100)]]"
        and rest = "[]"] f g
    by (simp add: list_all_iff)
qed

text \<open>
  C6. The claim: for a video file, when \<open>video.enableProcessing\<close> is false the file is
  copied unmodified; otherwise, when the probe fails, or finds no video stream, or the
  ffmpeg command fails, the original file is copied unmodified to the nominal target path
  and the walk goes on; a video failure never aborts the run or changes the exit status.
  The script keeps this only as long as \<open>fs.copyFileSync\<close> returns
  (\<open>processVideo_copy_returns\<close>). Of its four fallback copies only the one in the
  \<open>'error'\<close> handler of ffmpeg is guarded by \<open>try\<close>. On a first run, a video at the top
  of \<open>assets\<close> that ffprobe cannot read: the error is logged, the unguarded copy throws
  in the callback of \<open>ffprobe\<close>, nothing is copied, the next entry is never reached and
  the status is 1. With processing disabled, the throwing copy rejects the promise and
  the walk is aborted (\<open>Build error\<close>). After a failed ffmpeg command the guarded copy
  logs \<open>Failed to copy video\<close> and the walk goes on, without a copy of the file.
\<close>

theorem video_fallback_copy_unguarded:
  "script (Some example_config) False ''/site''
       [File ''clip.webm'' corrupt_file_no_copy, File ''logo.svg'' corrupt_file]
     = ([Mkdirp ''/site/dist'', ConsoleError ErrorGettingVideoMetadata], 1)
   \<and> processVideo example_config corrupt_file_no_copy
         ''/site/assets/clip.webm'' ''/site/dist/assets/clip.webm''
     = ([ConsoleError ErrorGettingVideoMetadata], Crashed)
   \<and> script (Some (example_config\<lparr>video_cfg := (video_cfg example_config)\<lparr>enableProcessing := False\<rparr>\<rparr>))
         False ''/site'' [File ''clip.webm'' corrupt_file_no_copy, File ''logo.svg'' corrupt_file]
     = ([Mkdirp ''/site/dist'', ConsoleError BuildError], 0)
   \<and> fst (optimizeAndBlurImages example_config ''/site/assets'' ''/site/dist/assets'' False True
            [File ''v.mp4'' ((video_file 1920 1080 False)\<lparr>copy_ok := False\<rparr>),
             File ''logo.svg'' corrupt_file])
     = [FfmpegError (videoCommand example_config ''/site/assets/v.mp4'' ''/site/dist/assets/v.mp4''
                       \<lparr>codec_type = ''video'', width = 1920, height = 1080\<rparr>),
        ConsoleError (ErrorProcessingVideo ''/site/assets/v.mp4''),
        ConsoleError FailedToCopyVideo,
        CopyFile ''/site/assets/logo.svg'' ''/site/dist/assets/logo.svg'']"
proof -
  have 1: "script (Some example_config) False ''/site''
       [File ''clip.webm'' corrupt_file_no_copy, File ''logo.svg'' corrupt_file]
     = ([Mkdirp ''/site/dist'', ConsoleError ErrorGettingVideoMetadata], 1)"
    by code_simp
  have 2: "processVideo example_config corrupt_file_no_copy
         ''/site/assets/clip.webm'' ''/site/dist/assets/clip.webm''
     = ([ConsoleError ErrorGettingVideoMetadata], Crashed)"
    by code_simp
  have 3: "script (Some (example_config\<lparr>video_cfg := (video_cfg example_config)\<lparr>enableProcessing := False\<rparr>\<rparr>))
         False ''/site'' [File ''clip.webm'' corrupt_file_no_copy, File ''logo.svg'' corrupt_file]
     = ([Mkdirp ''/site/dist'', ConsoleError BuildError], 0)"
    by code_simp
  have 4: "fst (optimizeAndBlurImages example_config ''/site/assets'' ''/site/dist/assets'' False True
            [File ''v.mp4'' ((video_file 1920 1080 False)\<lparr>copy_ok := False\<rparr>),
             File ''logo.svg'' corrupt_file])
     = [FfmpegError (videoCommand example_config ''/site/assets/v.mp4'' ''/site/dist/assets/v.mp4''
                       \<lparr>codec_type = ''video'', width = 1920, height = 1080\<rparr>),
        ConsoleError (ErrorProcessingVideo ''/site/assets/v.mp4''),
        ConsoleError FailedToCopyVideo,
        CopyFile ''/site/assets/logo.svg'' ''/site/dist/assets/logo.svg'']"
    by code_simp
  show ?thesis using 1 2 3 4 by blast
qed

text \<open>
  C7. For a file classified processable whose metadata cannot be read or whose output
  cannot be written, both walkers log the error with \<open>console.error\<close> and go on with the
  remaining entries: the file contributes no copy and no sharp output, and the walk ends
  as the walk over the remaining entries ends.
\<close>

theorem image_failure_skipped:
  assumes "\<not> startsWith_dot fname"
    and "shouldProcessFile cfg (path_join source fname)"
    and "sharp_metadata info = None \<or> \<not> sharp_toFile_ok info"
  shows "(getFileType cfg (path_join source fname) = Processable \<longrightarrow>
            optimizeAndBlurImages cfg source target applyBlur parentBlurAllowed (File fname info # rest)
              = (ConsoleError (ErrorProcessing (path_join source fname))
                   # fst (optimizeAndBlurImages cfg source target applyBlur parentBlurAllowed rest),
                 snd (optimizeAndBlurImages cfg source target applyBlur parentBlurAllowed rest)))
         \<and> (getFileType_basic cfg (path_join source fname) = Processable \<longrightarrow>
            optimizeAndBlurImages_basic cfg source target applyBlur parentBlurAllowed
                (File fname info # rest)
              = ConsoleError (ErrorProcessing (path_join source fname))
                  # optimizeAndBlurImages_basic cfg source target applyBlur parentBlurAllowed rest)"
proof -
  have img: "\<And>pl fp out. optimizeImage pl info fp out = ([ConsoleError (ErrorProcessing fp)], Fulfilled)"
    using assms(3) by (auto simp: optimizeImage_def catch_p_def split: option.split)
  show ?thesis
    using assms(1,2)
    by (simp add: walk_File basic_File file_promise_def file_actions_basic_def img
        andThen_Fulfilled)
qed

text \<open>A corrupt \<open>broken.jpg\<close> yields only the error line; the next entry is copied.\<close>

theorem image_failure_skipped_witness:
  "\<not> startsWith_dot ''broken.jpg''
   \<and> shouldProcessFile example_config (path_join ''/site/assets'' ''broken.jpg'')
   \<and> (sharp_metadata corrupt_file = None \<or> \<not> sharp_toFile_ok corrupt_file)
   \<and> getFileType example_config (path_join ''/site/assets'' ''broken.jpg'') = Processable
   \<and> optimizeAndBlurImages example_config ''/site/assets'' ''/site/dist/assets'' False True
        [File ''broken.jpg'' corrupt_file, File ''logo.svg'' corrupt_file]
       = ([ConsoleError (ErrorProcessing ''/site/assets/broken.jpg''),
           CopyFile ''/site/assets/logo.svg'' ''/site/dist/assets/logo.svg''], Fulfilled)"
proof -
  have h: "\<not> startsWith_dot ''broken.jpg''" by (simp add: startsWith_dot_def)
  have p: "shouldProcessFile example_config (path_join ''/site/assets'' ''broken.jpg'')"
    by code_simp
  have t: "getFileType example_config (path_join ''/site/assets'' ''broken.jpg'') = Processable"
    by code_simp
  have m: "sharp_metadata corrupt_file = None \<or> \<not> sharp_toFile_ok corrupt_file"
    by (simp add: corrupt_file_def)
  have r: "optimizeAndBlurImages example_config ''/site/assets'' ''/site/dist/assets'' False True
             [File ''logo.svg'' corrupt_file]
           = ([CopyFile ''/site/assets/logo.svg'' ''/site/dist/assets/logo.svg''], Fulfilled)"
    by code_simp
  have j: "path_join ''/site/assets'' ''broken.jpg'' = ''/site/assets/broken.jpg''"
    by (simp add: path_join_def)
  show ?thesis
    using image_failure_skipped[OF h p m, where target = "''/site/dist/assets''"
        and applyBlur = False and parentBlurAllowed = True
        and rest = "[File ''logo.svg'' corrupt_file]"] h p t r j
    by (simp add: corrupt_file_def)
qed

text \<open>
  C8. The ffmpeg command of a processed video is resized to
  \<open>video.maxWidth x video.maxHeight\<close> exactly when \<open>video.enableResize\<close> is true and the
  width of the video stream exceeds \<open>video.maxWidth\<close> or its height exceeds
  \<open>video.maxHeight\<close> (strict comparisons); otherwise no size is set. That command is the
  one \<open>processVideo\<close> runs once the probe has found the video stream.
\<close>

theorem video_resize_rule:
  "cmd_size (videoCommand cfg inputPath outputPath videoStream)
     = (if video_enableResize (video_cfg cfg)
           \<and> (width videoStream > video_maxWidth (video_cfg cfg)
                \<or> height videoStream > video_maxHeight (video_cfg cfg))
        then Some (video_maxWidth (video_cfg cfg), video_maxHeight (video_cfg cfg))
        else None)
   \<and> (enableProcessing (video_cfg cfg) \<and> ffprobe info = ProbeMetadata streams
        \<and> find (\<lambda>s. codec_type s = ''video'') streams = Some videoStream \<longrightarrow>
      fst (processVideo cfg info inputPath outputPath)
        = (if ffmpeg_ok info then [FfmpegEnd (videoCommand cfg inputPath outputPath videoStream)]
           else [FfmpegError (videoCommand cfg inputPath outputPath videoStream),
                 ConsoleError (ErrorProcessingVideo inputPath),
                 if copy_ok info then CopyFile inputPath outputPath
                 else ConsoleError FailedToCopyVideo]))"
  by (simp add: videoCommand_def processVideo_def Let_def)

text \<open>One pixel over the maximal height is resized; the maximal dimensions are kept.\<close>

theorem video_resize_rule_witness:
  "enableProcessing (video_cfg example_config)
   \<and> ffprobe (video_file 1920 1081 True)
       = ProbeMetadata [\<lparr>codec_type = ''audio'', width = 0, height = 0\<rparr>,
                        \<lparr>codec_type = ''video'', width = 1920, height = 1081\<rparr>]
   \<and> cmd_size (videoCommand example_config ''/site/assets/v.mp4'' ''/site/dist/assets/v.mp4''
                 \<lparr>codec_type = ''video'', width = 1920, height = 1081\<rparr>) = Some (1920, 1080)
   \<and> cmd_size (videoCommand example_config ''/site/assets/v.mp4'' ''/site/dist/assets/v.mp4''
                 \<lparr>codec_type = ''video'', width = 1920, height = 1080\<rparr>) = None
   \<and> fst (processVideo example_config (video_file 1920 1081 True)
             ''/site/assets/v.mp4'' ''/site/dist/assets/v.mp4'')
       = [FfmpegEnd (videoCommand example_config ''/site/assets/v.mp4'' ''/site/dist/assets/v.mp4''
                       \<lparr>codec_type = ''video'', width = 1920, height = 1081\<rparr>)]"
proof -
  have e: "enableProcessing (video_cfg example_config)"
    "video_enableResize (video_cfg example_config)"
    "video_maxWidth (video_cfg example_config) = 1920"
    "video_maxHeight (video_cfg example_config) = 1080"
    by (simp_all add: example_config_def)
  have f: "ffprobe (video_file 1920 1081 True)
       = ProbeMetadata [\<lparr>codec_type = ''audio'', width = 0, height = 0\<rparr>,
                        \<lparr>codec_type = ''video'', width = 1920, height = 1081\<rparr>]"
    "ffmpeg_ok (video_file 1920 1081 True)"
    by (simp_all add: video_file_def)
  have s: "find (\<lambda>s. codec_type s = ''video'')
             [\<lparr>codec_type = ''audio'', width = 0, height = 0\<rparr>,
              \<lparr>codec_type = ''video'', width = 1920, height = 1081\<rparr>]
           = Some \<lparr>codec_type = ''video'', width = 1920, height = 1081\<rparr>"
    by simp
  show ?thesis
    using video_resize_rule[where cfg = example_config and inputPath = "''/site/assets/v.mp4''"
        and outputPath = "''/site/dist/assets/v.mp4''"
        and videoStream = "\<lparr>codec_type = ''video'', width = 1920, height = 1081\<rparr>"
        and info = "video_file 1920 1081 True"
        and streams = "[\<lparr>codec_type = ''audio'', width = 0, height = 0\<rparr>,
                        \<lparr>codec_type = ''video'', width = 1920, height = 1081\<rparr>]"]
      video_resize_rule[where cfg = example_config and inputPath = "''/site/assets/v.mp4''"
        and outputPath = "''/site/dist/assets/v.mp4''"
        and videoStream = "\<lparr>codec_type = ''video'', width = 1920, height = 1080\<rparr>"
        and info = "video_file 1920 1081 True" and streams = "[]"]
      e f s
    by simp
qed



end
